theory Spec2Isabelle
  imports Main "HOL-Library.Word" "HOL-Library.AList"
begin

section \<open>Python values used by the plate analyzer\<close>

text \<open>
  Exceptions are values: every function of the source that can raise returns
  \<open>error + 'a\<close>, with \<open>Inl\<close> the exception.  Coordinates, sizes and counts come from
  \<open>range\<close>, \<open>len\<close> and \<open>image.size\<close>, which never produce a negative number, so they
  are natural numbers.  A channel of a multi-band Pillow pixel is an integer in
  \<open>0..255\<close>: a byte.  \<open>NotImplementedError\<close> is raised by nothing in the source: it
  is what the test double of the library answers outside the calls it implements.
\<close>

datatype error = UnidentifiedImageError | OSError | ValueError | TypeError | IndexError
  | AssertionError | NotImplementedError

type_synonym byte = "8 word"

definition bind :: "error + 'a \<Rightarrow> ('a \<Rightarrow> error + 'b) \<Rightarrow> error + 'b" where
  "bind m f = (case m of Inl e \<Rightarrow> Inl e | Inr v \<Rightarrow> f v)"

subsection \<open>Number formatting and parsing\<close>

text \<open>
  \<open>str\<close> is Python's \<open>str\<close> on a non-negative integer, \<open>format_02X\<close> the format
  specification \<open>02X\<close> (upper-case hexadecimal, zero-padded to width two) and
  \<open>int_base16\<close> is \<open>int(s, 16)\<close> on the strings the source builds: an optional
  \<open>0x\<close> prefix followed by hexadecimal digits, \<open>ValueError\<close> otherwise.
\<close>

definition digit_char :: "nat \<Rightarrow> char" where
  "digit_char d = ''0123456789ABCDEF'' ! d"

fun str :: "nat \<Rightarrow> string" where
  "str n = (if n < 10 then [digit_char n] else str (n div 10) @ [digit_char (n mod 10)])"

fun hex_upper :: "nat \<Rightarrow> string" where
  "hex_upper n =
     (if n < 16 then [digit_char n] else hex_upper (n div 16) @ [digit_char (n mod 16)])"

definition format_02X :: "nat \<Rightarrow> string" where
  "format_02X n = (let s = hex_upper n in replicate (2 - length s) CHR ''0'' @ s)"

definition hex_value :: "char \<Rightarrow> nat option" where
  "hex_value c = map_of
     [(CHR ''0'', 0), (CHR ''1'', 1), (CHR ''2'', 2), (CHR ''3'', 3), (CHR ''4'', 4),
      (CHR ''5'', 5), (CHR ''6'', 6), (CHR ''7'', 7), (CHR ''8'', 8), (CHR ''9'', 9),
      (CHR ''a'', 10), (CHR ''b'', 11), (CHR ''c'', 12), (CHR ''d'', 13), (CHR ''e'', 14),
      (CHR ''f'', 15), (CHR ''A'', 10), (CHR ''B'', 11), (CHR ''C'', 12), (CHR ''D'', 13),
      (CHR ''E'', 14), (CHR ''F'', 15)] c"

definition int_base16 :: "string \<Rightarrow> error + nat" where
  "int_base16 s =
     (let digits = (if take 2 s = ''0x'' \<or> take 2 s = ''0X'' then drop 2 s else s)
      in if digits = [] \<or> (\<exists>c \<in> set digits. hex_value c = None) then Inl ValueError
         else Inr (foldl (\<lambda>acc c. acc * 16 + the (hex_value c)) 0 digits))"

declare str.simps [simp del] hex_upper.simps [simp del]

subsection \<open>Lists indexed as Python does\<close>

definition getitem :: "'a list \<Rightarrow> nat \<Rightarrow> error + 'a" where
  "getitem xs i = (if i < length xs then Inr (xs ! i) else Inl IndexError)"

definition setitem :: "'a list \<Rightarrow> nat \<Rightarrow> 'a \<Rightarrow> error + 'a list" where
  "setitem xs i v = (if i < length xs then Inr (xs[i := v]) else Inl IndexError)"

section \<open>The decoded image\<close>

text \<open>
  Pillow is not part of the repository.  What the source uses of a decoded image is its
  \<open>mode\<close>, its \<open>size\<close> and the pixel access object returned by \<open>load()\<close>.  Indexing
  that object gives a tuple of bytes for a multi-band mode (four for RGBA, three for RGB,
  two for LA) and a single number for a single-band mode (L, P, 1, I, F).
\<close>

datatype pixel = Scalar int | Bands "byte list"

record image =
  mode :: string
  size_image :: "nat \<times> nat"
  load :: "nat \<times> nat \<Rightarrow> pixel"

text \<open>
  The library calls are parameters of the model: the fields of a record that every
  function using Pillow takes.  \<open>Image_open\<close> stands for \<open>Image.open\<close> on the bytes
  together with the decoding of the pixel data, and gives the image or the exception
  Pillow raises; \<open>paste\<close> stands for \<open>bg.paste(image, mask=m)\<close> and returns the canvas
  after the call; \<open>save_jpeg\<close> stands for \<open>image.save(buf, format="JPEG", quality=q)\<close>
  followed by \<open>buf.getvalue()\<close>.
\<close>

type_synonym decoder = "byte list \<Rightarrow> error + image"

record pillow =
  Image_open :: decoder
  Image_new :: "string \<Rightarrow> nat \<times> nat \<Rightarrow> byte list \<Rightarrow> image"
  split :: "image \<Rightarrow> image list"
  paste :: "image \<Rightarrow> image \<Rightarrow> image \<Rightarrow> error + image"
  convert :: "image \<Rightarrow> string \<Rightarrow> error + image"
  save_jpeg :: "image \<Rightarrow> int \<Rightarrow> error + byte list"

section \<open>The extractor: \<open>compute_bounding_boxes\<close>\<close>

text \<open>
  \<open>r, g, b, a = current_color\<close> unpacks exactly four values: a single number is not
  iterable (\<open>TypeError\<close>) and a tuple of another length raises \<open>ValueError\<close>.
\<close>

definition unpack4 :: "pixel \<Rightarrow> error + (byte \<times> byte \<times> byte \<times> byte)" where
  "unpack4 current_color =
     (case current_color of
        Scalar v \<Rightarrow> Inl TypeError
      | Bands t \<Rightarrow>
          if length t = 4 then Inr (t ! 0, t ! 1, t ! 2, t ! 3) else Inl ValueError)"

text \<open>\<open>str(int(f"0x{b:02X}{g:02X}{r:02X}", 16))\<close>\<close>

definition bgr_identify_id :: "byte \<Rightarrow> byte \<Rightarrow> byte \<Rightarrow> error + string" where
  "bgr_identify_id r g b =
     bind (int_base16 (''0x'' @ format_02X (unat b) @ format_02X (unat g) @ format_02X (unat r)))
       (\<lambda>n. Inr (str n))"

text \<open>
  The two dictionaries of the loop.  \<open>boxes\<close> is the local \<open>bboxes\<close>; its values are
  Python lists that the loop updates by index.  Every list is created by the loop itself
  and stored under one key only, so no two keys share a list.
\<close>

record scan_state =
  boxes :: "string \<rightharpoonup> nat list"
  seen_colors :: "pixel \<rightharpoonup> string"

text \<open>Lines 49 to 55: the identifier of a colour, from the cache or computed and cached.\<close>

definition lookup_identify_id ::
  "(pixel \<rightharpoonup> string) \<Rightarrow> pixel \<Rightarrow> byte \<Rightarrow> byte \<Rightarrow> byte \<Rightarrow> error + (string \<times> (pixel \<rightharpoonup> string))" where
  "lookup_identify_id seen current_color r g b =
     (case seen current_color of
        Some identify_id \<Rightarrow> Inr (identify_id, seen)
      | None \<Rightarrow>
          bind (bgr_identify_id r g b)
            (\<lambda>identify_id. Inr (identify_id, seen(current_color \<mapsto> identify_id))))"

text \<open>Lines 59 to 67: the four independent comparisons on an existing box.\<close>

definition expand_bbox :: "nat list \<Rightarrow> nat \<Rightarrow> nat \<Rightarrow> error + nat list" where
  "expand_bbox bbox0 x y =
     bind (getitem bbox0 0) (\<lambda>b0.
     bind (if x < b0 then setitem bbox0 0 x else Inr bbox0) (\<lambda>bbox1.
     bind (getitem bbox1 1) (\<lambda>b1.
     bind (if y < b1 then setitem bbox1 1 y else Inr bbox1) (\<lambda>bbox2.
     bind (getitem bbox2 2) (\<lambda>b2.
     bind (if x > b2 then setitem bbox2 2 x else Inr bbox2) (\<lambda>bbox3.
     bind (getitem bbox3 3) (\<lambda>b3.
     if y > b3 then setitem bbox3 3 y else Inr bbox3)))))))"

text \<open>Lines 57 to 69: the box of an identifier is expanded, or created as \<open>[x, y, x, y]\<close>.\<close>

definition update_bounding_box ::
  "(string \<rightharpoonup> nat list) \<Rightarrow> string \<Rightarrow> nat \<Rightarrow> nat \<Rightarrow> error + (string \<rightharpoonup> nat list)" where
  "update_bounding_box bbs identify_id x y =
     (case bbs identify_id of
        Some bbox \<Rightarrow> bind (expand_bbox bbox x y) (\<lambda>bbox'. Inr (bbs(identify_id \<mapsto> bbox')))
      | None \<Rightarrow> Inr (bbs(identify_id \<mapsto> [x, y, x, y])))"

text \<open>The body of the inner loop, lines 42 to 69.\<close>

definition process_pixel ::
  "(nat \<times> nat \<Rightarrow> pixel) \<Rightarrow> nat \<Rightarrow> nat \<Rightarrow> scan_state \<Rightarrow> error + scan_state" where
  "process_pixel pixels x y st =
     (let current_color = pixels (x, y) in
      bind (unpack4 current_color) (\<lambda>(r, g, b, a).
        if a = 0 then Inr st
        else
          bind (lookup_identify_id (seen_colors st) current_color r g b) (\<lambda>(identify_id, seen).
          bind (update_bounding_box (boxes st) identify_id x y) (\<lambda>bbs.
          Inr \<lparr>boxes = bbs, seen_colors = seen\<rparr>))))"

text \<open>\<open>for x in range(image_width)\<close> at a fixed \<open>y\<close>, then \<open>for y in range(image_height)\<close>.\<close>

fun for_x :: "(nat \<times> nat \<Rightarrow> pixel) \<Rightarrow> nat \<Rightarrow> nat list \<Rightarrow> scan_state \<Rightarrow> error + scan_state" where
  "for_x pixels y [] st = Inr st"
| "for_x pixels y (x # xs) st = bind (process_pixel pixels x y st) (for_x pixels y xs)"

fun for_y :: "(nat \<times> nat \<Rightarrow> pixel) \<Rightarrow> nat \<Rightarrow> nat list \<Rightarrow> scan_state \<Rightarrow> error + scan_state" where
  "for_y pixels image_width [] st = Inr st"
| "for_y pixels image_width (y # ys) st =
     bind (for_x pixels y [0..<image_width] st) (for_y pixels image_width ys)"

record analysis =
  image_width :: nat
  image_height :: nat
  bboxes :: "string \<rightharpoonup> nat list"

definition compute_bounding_boxes :: "pillow \<Rightarrow> byte list \<Rightarrow> error + analysis" where
  "compute_bounding_boxes pil image_bytes =
     bind (Image_open pil image_bytes) (\<lambda>image.
       let (w, h) = size_image image; pixels = load image in
       bind (for_y pixels w [0..<h] \<lparr>boxes = Map.empty, seen_colors = Map.empty\<rparr>) (\<lambda>st.
       Inr \<lparr>image_width = w, image_height = h, bboxes = boxes st\<rparr>))"

section \<open>The JPEG normalizer: \<open>convert_to_jpeg\<close>\<close>

text \<open>
  The function is a sequence of Pillow calls chosen by \<open>image.mode\<close>.
\<close>

definition convert_to_jpeg :: "pillow \<Rightarrow> byte list \<Rightarrow> int \<Rightarrow> error + byte list" where
  "convert_to_jpeg pil image_bytes quality =
     bind (Image_open pil image_bytes) (\<lambda>image.
     bind (if mode image = ''RGBA'' then
             let bg = Image_new pil ''RGB'' (size_image image) [0, 0, 0] in
             bind (getitem (split pil image) 3) (\<lambda>mask. paste pil bg image mask)
           else if mode image \<noteq> ''RGB'' then convert pil image ''RGB''
           else Inr image)
       (\<lambda>image. save_jpeg pil image quality))"

text \<open>The default of the parameter \<open>quality\<close>.\<close>

definition default_quality :: int where
  "default_quality = 80"

section \<open>The sensor: \<open>BambuPlateAnalyzerSensor\<close>\<close>

text \<open>
  A merged object is the dictionary \<open>{"name": ...}\<close> with an optional key
  \<open>"bbox"\<close>.  \<open>_objects\<close> and the upstream mapping are Python dictionaries, iterated in
  insertion order: association lists, written with the update of a dictionary
  (\<open>AList.update\<close>: an existing key keeps its place, a new key goes last).
\<close>

record obj_data =
  name :: string
  bbox :: "nat list option"

record sensor =
  self_pick_image_entity_id :: "string option"
  self_object_count :: nat
  self_objects :: "(string \<times> obj_data) list"
  self_image_width :: nat
  self_image_height :: nat

text \<open>The attributes \<open>__init__\<close> sets, for a sensor whose entities are resolved or not.\<close>

definition init_sensor :: "string option \<Rightarrow> sensor" where
  "init_sensor pick = \<lparr>self_pick_image_entity_id = pick, self_object_count = 0,
     self_objects = [], self_image_width = 0, self_image_height = 0\<rparr>"

definition native_value :: "sensor \<Rightarrow> nat" where
  "native_value s = self_object_count s"

subsection \<open>\<open>_bbox_data_serialized\<close>\<close>

fun join :: "string \<Rightarrow> string list \<Rightarrow> string" where
  "join sep [] = []"
| "join sep [p] = p"
| "join sep (p # q # ps) = p @ sep @ join sep (q # ps)"

text \<open>
  The body of the loop over \<open>_objects.items()\<close>.  \<open>if bbox:\<close> is false for a missing
  key and for an empty list.
\<close>

definition format_object :: "string \<Rightarrow> obj_data \<Rightarrow> error + string" where
  "format_object identify_id obj =
     (case bbox obj of
        None \<Rightarrow> Inr (identify_id @ '':'' @ name obj @ '':'')
      | Some b \<Rightarrow>
          if b \<noteq> [] then
            bind (getitem b 0) (\<lambda>b0. bind (getitem b 1) (\<lambda>b1.
            bind (getitem b 2) (\<lambda>b2. bind (getitem b 3) (\<lambda>b3.
            Inr (identify_id @ '':'' @ name obj @ '':'' @ str b0 @ '','' @ str b1 @ '',''
                 @ str b2 @ '','' @ str b3)))))
          else Inr (identify_id @ '':'' @ name obj @ '':''))"

fun parts_loop :: "(string \<times> obj_data) list \<Rightarrow> string list \<Rightarrow> error + string list" where
  "parts_loop [] parts = Inr parts"
| "parts_loop ((identify_id, obj) # items) parts =
     bind (format_object identify_id obj) (\<lambda>p. parts_loop items (parts @ [p]))"

definition bbox_data_serialized :: "sensor \<Rightarrow> error + string" where
  "bbox_data_serialized s =
     (if self_objects s = [] then Inr ''''
      else bind (parts_loop (self_objects s) []) (\<lambda>parts. Inr (join ''|'' parts)))"

subsection \<open>The host and \<open>_async_get_pick_image\<close>\<close>

text \<open>
  Of Home Assistant the sensor reads the image entity component (absent, or a lookup of
  entities by id, each with the outcome of its \<open>async_image()\<close>: an exception, or
  bytes or \<open>None\<close>) and the current time.  It writes its own attributes, the state it
  publishes with \<open>async_write_ha_state\<close> (the log \<open>written\<close> holds a copy of the
  attributes at every call, the last one being the published state) and the JPEG slot of
  its config entry in \<open>hass.data\<close>, which may be missing.
\<close>

record hass =
  image_component :: "(string \<rightharpoonup> error + byte list option) option"
  utcnow :: nat

record jpeg_slot =
  jpeg_bytes :: "byte list option"
  jpeg_updated :: "nat option"

record world =
  self :: sensor
  written :: "sensor list"
  entry_data :: "jpeg_slot option"

definition async_write_ha_state :: "world \<Rightarrow> world" where
  "async_write_ha_state w = w\<lparr>written := written w @ [self w]\<rparr>"

definition async_get_pick_image :: "hass \<Rightarrow> sensor \<Rightarrow> byte list option" where
  "async_get_pick_image hs s =
     (case image_component hs of
        None \<Rightarrow> None
      | Some entity_comp \<Rightarrow>
          (case (case self_pick_image_entity_id s of None \<Rightarrow> None | Some i \<Rightarrow> entity_comp i) of
             None \<Rightarrow> None
           | Some async_image \<Rightarrow> (case async_image of Inl e \<Rightarrow> None | Inr r \<Rightarrow> r)))"

subsection \<open>\<open>_process_plate_data\<close>\<close>

text \<open>Lines 305 to 310: the merge of the names with the boxes.\<close>

fun merge_loop ::
  "(string \<times> string) list \<Rightarrow> (string \<rightharpoonup> nat list) \<Rightarrow> (string \<times> obj_data) list
     \<Rightarrow> (string \<times> obj_data) list" where
  "merge_loop [] bbs merged = merged"
| "merge_loop ((identify_id, nm) # items) bbs merged =
     (let obj = \<lparr>name = nm, bbox = None\<rparr>;
          obj = (case bbs identify_id of Some b \<Rightarrow> obj\<lparr>bbox := Some b\<rparr> | None \<Rightarrow> obj)
      in merge_loop items bbs (AList.update identify_id obj merged))"

text \<open>Lines 318 to 326: the JPEG is stored when the conversion succeeds.\<close>

definition store_jpeg :: "pillow \<Rightarrow> hass \<Rightarrow> byte list \<Rightarrow> world \<Rightarrow> world" where
  "store_jpeg pil hs image_bytes w =
     (case convert_to_jpeg pil image_bytes default_quality of
        Inl e \<Rightarrow> w
      | Inr jpeg \<Rightarrow>
          w\<lparr>entry_data :=
              map_option (\<lambda>d. d\<lparr>jpeg_bytes := Some jpeg, jpeg_updated := Some (utcnow hs)\<rparr>)
                (entry_data w)\<rparr>)"

text \<open>
  The result is \<open>Inl\<close> only for the failed assertion, which is raised before anything
  is changed.  An exception of the extractor is caught (\<open>except Exception\<close>) and the
  function returns.
\<close>

definition process_plate_data ::
  "pillow \<Rightarrow> hass \<Rightarrow> (string \<times> string) list \<Rightarrow> world \<Rightarrow> error + world" where
  "process_plate_data pil hs objects_attr w =
     (if objects_attr = [] then
        Inr (async_write_ha_state
          (w\<lparr>self := (self w)\<lparr>self_object_count := 0, self_objects := [],
                 self_image_width := 0, self_image_height := 0\<rparr>\<rparr>))
      else if self_pick_image_entity_id (self w) = None then Inl AssertionError
      else
        (case async_get_pick_image hs (self w) of
           None \<Rightarrow> Inr w
         | Some image_bytes \<Rightarrow>
             (case compute_bounding_boxes pil image_bytes of
                Inl e \<Rightarrow> Inr w
              | Inr result \<Rightarrow>
                  let merged = merge_loop objects_attr (bboxes result) [];
                      w1 = w\<lparr>self := (self w)\<lparr>self_object_count := length merged,
                              self_objects := merged,
                              self_image_width := image_width result,
                              self_image_height := image_height result\<rparr>\<rparr>
                  in Inr (async_write_ha_state (store_jpeg pil hs image_bytes w1)))))"

section \<open>Specifications\<close>

subsection \<open>The scan\<close>

text \<open>
  The identifier the specification gives a pixel: none for a pixel that is skipped
  (alpha 0) or that does not unpack, otherwise the decimal string of
  \<open>B * 65536 + G * 256 + R\<close>.
\<close>

definition pixel_identifier :: "pixel \<Rightarrow> string option" where
  "pixel_identifier p =
     (case unpack4 p of
        Inl e \<Rightarrow> None
      | Inr (r, g, b, a) \<Rightarrow>
          if a = 0 then None else Some (str (unat b * 65536 + unat g * 256 + unat r)))"

text \<open>The coordinates of a set \<open>S\<close> whose pixel carries the identifier \<open>k\<close>.\<close>

definition points :: "(nat \<times> nat \<Rightarrow> pixel) \<Rightarrow> (nat \<times> nat) set \<Rightarrow> string \<Rightarrow> (nat \<times> nat) set" where
  "points pixels S k = {p \<in> S. pixel_identifier (pixels p) = Some k}"

text \<open>
  The coordinates of an image whose pixel has four channels, a nonzero alpha and the
  identifier \<open>k\<close>.
\<close>

definition id_pixels :: "image \<Rightarrow> string \<Rightarrow> (nat \<times> nat) set" where
  "id_pixels im k =
     {(x, y). x < fst (size_image im) \<and> y < snd (size_image im) \<and>
        (\<exists>r g b a. load im (x, y) = Bands [r, g, b, a] \<and> a \<noteq> 0 \<and>
           k = str (unat b * 65536 + unat g * 256 + unat r))}"

text \<open>The component-wise minimum and maximum of a set of coordinates.\<close>

definition box_of :: "(nat \<times> nat) set \<Rightarrow> nat list" where
  "box_of P = [Min (fst ` P), Min (snd ` P), Max (fst ` P), Max (snd ` P)]"

text \<open>
  The loop invariant once the coordinates \<open>S\<close> have been visited: every box is the
  box of the visited coordinates of its identifier, and the colour cache only holds
  identifiers of colours.
\<close>

definition cache_ok :: "(pixel \<rightharpoonup> string) \<Rightarrow> bool" where
  "cache_ok seen = (\<forall>c i. seen c = Some i \<longrightarrow> pixel_identifier c = Some i)"

definition scan_inv :: "(nat \<times> nat \<Rightarrow> pixel) \<Rightarrow> (nat \<times> nat) set \<Rightarrow> scan_state \<Rightarrow> bool" where
  "scan_inv pixels S st =
     (finite S \<and> cache_ok (seen_colors st) \<and>
      (\<forall>k. boxes st k =
         (if points pixels S k = {} then None else Some (box_of (points pixels S k)))))"

text \<open>The coordinates in the order the two loops visit them, and the scan of a list.\<close>

fun scan_list :: "(nat \<times> nat \<Rightarrow> pixel) \<Rightarrow> (nat \<times> nat) list \<Rightarrow> scan_state \<Rightarrow> error + scan_state" where
  "scan_list pixels [] st = Inr st"
| "scan_list pixels ((x, y) # cs) st = bind (process_pixel pixels x y st) (scan_list pixels cs)"

definition row_coords :: "nat \<Rightarrow> nat \<Rightarrow> (nat \<times> nat) list" where
  "row_coords w y = map (\<lambda>x. (x, y)) [0..<w]"

definition scan_order :: "nat \<Rightarrow> nat list \<Rightarrow> (nat \<times> nat) list" where
  "scan_order w ys = concat (map (row_coords w) ys)"

definition initial_state :: scan_state where
  "initial_state = \<lparr>boxes = Map.empty, seen_colors = Map.empty\<rparr>"

subsection \<open>The sensor\<close>

text \<open>
  The segment the specification gives an object in the compact line:
  \<open>id:name:min_x,min_y,max_x,max_y\<close>, and \<open>id:name:\<close> for an object without a box.
\<close>

definition segment :: "string \<times> obj_data \<Rightarrow> string" where
  "segment item =
     (case bbox (snd item) of
        None \<Rightarrow> fst item @ '':'' @ name (snd item) @ '':''
      | Some b \<Rightarrow>
          fst item @ '':'' @ name (snd item) @ '':'' @ str (b ! 0) @ '','' @ str (b ! 1)
            @ '','' @ str (b ! 2) @ '','' @ str (b ! 3))"

text \<open>Every box of a record has its four bounds, as the boxes of the extractor do.\<close>

definition four_bounds :: "(string \<times> obj_data) list \<Rightarrow> bool" where
  "four_bounds objs = list_all (\<lambda>item. case bbox (snd item) of None \<Rightarrow> True
                                      | Some b \<Rightarrow> length b = 4) objs"

text \<open>The record the specification gives a name mapping and a map of boxes.\<close>

definition merged_record ::
  "(string \<times> string) list \<Rightarrow> (string \<rightharpoonup> nat list) \<Rightarrow> (string \<times> obj_data) list" where
  "merged_record objects_attr bbs =
     map (\<lambda>item. (fst item, \<lparr>name = snd item, bbox = bbs (fst item)\<rparr>)) objects_attr"

subsection \<open>The library\<close>

text \<open>
  What the documentation of Pillow says of the three calls of the RGBA branch, inside the
  bounds of the images.  \<open>Image.new\<close> with a colour of three channels gives an RGB image
  of that colour.  The fourth band of an RGBA image is an image of mode L that holds its
  alpha channel.  \<open>paste\<close> of an RGBA image on an RGB canvas of the same size with a mask
  of mode L and of the same size blends the two: every channel becomes the integer nearest
  to \<open>(pasted * m + canvas * (255 - m)) / 255\<close>, where \<open>m\<close> is the value of the mask at
  the pixel.  Nothing is said of a mask of another mode, of other modes of canvas and image,
  or of other sizes.
\<close>

definition in_bounds :: "image \<Rightarrow> nat \<times> nat \<Rightarrow> bool" where
  "in_bounds im p = (fst p < fst (size_image im) \<and> snd p < snd (size_image im))"

definition blend :: "nat \<Rightarrow> byte \<Rightarrow> byte \<Rightarrow> byte" where
  "blend m canvas pasted = of_nat ((unat pasted * m + unat canvas * (255 - m) + 127) div 255)"

definition pillow_contract :: "pillow \<Rightarrow> bool" where
  "pillow_contract pil =
     ((\<forall>sz c. length c = 3 \<longrightarrow>
          mode (Image_new pil ''RGB'' sz c) = ''RGB'' \<and>
          size_image (Image_new pil ''RGB'' sz c) = sz \<and>
          (\<forall>p. in_bounds (Image_new pil ''RGB'' sz c) p \<longrightarrow>
             load (Image_new pil ''RGB'' sz c) p = Bands c)) \<and>
      (\<forall>im. mode im = ''RGBA'' \<longrightarrow>
          length (split pil im) = 4 \<and> mode (split pil im ! 3) = ''L'' \<and>
          size_image (split pil im ! 3) = size_image im \<and>
          (\<forall>p r g b a. in_bounds im p \<and> load im p = Bands [r, g, b, a] \<longrightarrow>
             load (split pil im ! 3) p = Scalar (int (unat a)))) \<and>
      (\<forall>bg im mask.
          mode bg = ''RGB'' \<and> mode im = ''RGBA'' \<and> mode mask = ''L'' \<and>
          size_image im = size_image bg \<and> size_image mask = size_image bg \<longrightarrow>
          (\<exists>out. paste pil bg im mask = Inr out \<and> mode out = ''RGB'' \<and>
             size_image out = size_image bg \<and>
             (\<forall>p c0 c1 c2 r g b a m.
                in_bounds bg p \<and> load bg p = Bands [c0, c1, c2] \<and>
                load im p = Bands [r, g, b, a] \<and> load mask p = Scalar (int m) \<and> m \<le> 255 \<longrightarrow>
                load out p = Bands [blend m c0 r, blend m c1 g, blend m c2 b]))))"

section \<open>Concrete inputs\<close>

text \<open>
  Small images and hosts on which the definitions are evaluated, and a test double for
  Pillow.  \<open>fixed_decoder\<close> decodes any bytes to the given image and \<open>broken_decoder\<close>
  is the decoder of bytes that are no image.  \<open>reference_pillow\<close> completes a decoder to
  a library that implements, pixel by pixel and as Pillow documents them, the calls that
  \<open>convert_to_jpeg\<close> makes on images of the modes L, LA, RGB and RGBA: \<open>split\<close> gives
  the bands as images of mode L, \<open>paste\<close> of an RGBA image on an RGB canvas with a mask of
  mode L blends them, \<open>convert\<close> to RGB repeats the grey value of an L or LA pixel and
  drops the alpha of an LA or RGBA pixel.  Every other call answers
  \<open>NotImplementedError\<close>: the double says nothing of it.  JPEG compression is not
  modelled either: for an RGB image and a quality from 0 to 100 the encoder of the double
  returns the quality followed by the channel values in scan order.
\<close>

definition fixed_decoder :: "image \<Rightarrow> decoder" where
  "fixed_decoder im = (\<lambda>image_bytes. Inr im)"

definition broken_decoder :: decoder where
  "broken_decoder = (\<lambda>image_bytes. Inl UnidentifiedImageError)"

definition band_count :: "string \<Rightarrow> nat" where
  "band_count m =
     (if m \<in> {''RGBA'', ''CMYK'', ''RGBX'', ''RGBa''} then 4
      else if m \<in> {''RGB'', ''YCbCr'', ''LAB'', ''HSV''} then 3
      else if m \<in> {''LA'', ''PA'', ''La''} then 2 else 1)"

definition band_image :: "image \<Rightarrow> nat \<Rightarrow> image" where
  "band_image im i = \<lparr>mode = ''L'', size_image = size_image im,
     load = (\<lambda>p. case load im p of
                   Scalar v \<Rightarrow> Scalar v
                 | Bands t \<Rightarrow> if i < length t then Scalar (int (unat (t ! i))) else Scalar 0)\<rparr>"

definition split_reference :: "image \<Rightarrow> image list" where
  "split_reference im =
     (if band_count (mode im) = 1 then [im]
      else map (band_image im) [0..<band_count (mode im)])"

definition paste_pixel :: "pixel \<Rightarrow> pixel \<Rightarrow> pixel \<Rightarrow> pixel" where
  "paste_pixel canvas pasted alpha =
     (case (canvas, pasted, alpha) of
        (Bands u, Bands t, Scalar m) \<Rightarrow>
          if length u = 3 \<and> length t = 4 \<and> 0 \<le> m \<and> m \<le> 255
          then Bands (map2 (blend (nat m)) u (take 3 t)) else canvas
      | _ \<Rightarrow> canvas)"

definition paste_reference :: "image \<Rightarrow> image \<Rightarrow> image \<Rightarrow> error + image" where
  "paste_reference bg im alpha =
     (if mode bg = ''RGB'' \<and> mode im = ''RGBA'' \<and> mode alpha = ''L'' \<and>
         size_image im = size_image bg \<and> size_image alpha = size_image bg then
        Inr (bg\<lparr>load := (\<lambda>p. paste_pixel (load bg p) (load im p) (load alpha p))\<rparr>)
      else Inl NotImplementedError)"

definition convert_pixel_rgb :: "string \<Rightarrow> pixel \<Rightarrow> pixel" where
  "convert_pixel_rgb m px =
     (case px of
        Scalar v \<Rightarrow> Bands [word_of_int v, word_of_int v, word_of_int v]
      | Bands t \<Rightarrow>
          if m = ''LA'' then (case t of [] \<Rightarrow> px | l # rest \<Rightarrow> Bands [l, l, l])
          else Bands (take 3 t))"

definition convert_reference :: "image \<Rightarrow> string \<Rightarrow> error + image" where
  "convert_reference im m =
     (if m = ''RGB'' \<and> mode im \<in> {''L'', ''LA'', ''RGB'', ''RGBA''} then
        Inr \<lparr>mode = ''RGB'', size_image = size_image im,
             load = (\<lambda>p. convert_pixel_rgb (mode im) (load im p))\<rparr>
      else Inl NotImplementedError)"

definition raster_bytes :: "image \<Rightarrow> byte list" where
  "raster_bytes im =
     concat (map (\<lambda>p. case load im p of Scalar v \<Rightarrow> [word_of_int v] | Bands t \<Rightarrow> t)
       (scan_order (fst (size_image im)) [0..<snd (size_image im)]))"

definition save_reference :: "image \<Rightarrow> int \<Rightarrow> error + byte list" where
  "save_reference im quality =
     (if mode im = ''RGB'' \<and> 0 \<le> quality \<and> quality \<le> 100
      then Inr (word_of_int quality # raster_bytes im)
      else Inl NotImplementedError)"

definition reference_pillow :: "decoder \<Rightarrow> pillow" where
  "reference_pillow dec = \<lparr>Image_open = dec,
     Image_new = (\<lambda>m sz c. \<lparr>mode = m, size_image = sz, load = (\<lambda>p. Bands c)\<rparr>),
     split = split_reference,
     paste = paste_reference,
     convert = convert_reference,
     save_jpeg = save_reference\<rparr>"

text \<open>Two opaque pixels of the colour R=0x12, G=0x34, B=0x56 side by side.\<close>

definition two_pixel_row :: image where
  "two_pixel_row = \<lparr>mode = ''RGBA'', size_image = (2, 1),
     load = (\<lambda>p. Bands [0x12, 0x34, 0x56, 0xFF])\<rparr>"

text \<open>An 11 by 6 image, transparent but for one colour at (5, 5) and at (10, 2).\<close>

definition pick_image_two :: image where
  "pick_image_two = \<lparr>mode = ''RGBA'', size_image = (11, 6),
     load = (\<lambda>p. if p = (5, 5) \<or> p = (10, 2) then Bands [1, 2, 3, 255]
                 else Bands [9, 9, 9, 0])\<rparr>"

text \<open>The same with the colour at (5, 5) only.\<close>

definition pick_image_one :: image where
  "pick_image_one = \<lparr>mode = ''RGBA'', size_image = (11, 6),
     load = (\<lambda>p. if p = (5, 5) then Bands [1, 2, 3, 255] else Bands [9, 9, 9, 0])\<rparr>"

text \<open>A 2 by 2 image whose pixels all have alpha 0, with different colours.\<close>

definition transparent_image :: image where
  "transparent_image = \<lparr>mode = ''RGBA'', size_image = (2, 2),
     load = (\<lambda>(x, y). Bands [of_nat x, of_nat y, 7, 0])\<rparr>"

text \<open>
  What Pillow gives for a PNG without alpha, for a greyscale image, and for a greyscale
  image with alpha whose only pixel is white and fully transparent.
\<close>

definition rgb_image :: image where
  "rgb_image = \<lparr>mode = ''RGB'', size_image = (1, 1), load = (\<lambda>p. Bands [0x12, 0x34, 0x56])\<rparr>"

definition grey_image :: image where
  "grey_image = \<lparr>mode = ''L'', size_image = (1, 1), load = (\<lambda>p. Scalar 200)\<rparr>"

definition grey_alpha_image :: image where
  "grey_alpha_image = \<lparr>mode = ''LA'', size_image = (1, 1), load = (\<lambda>p. Bands [255, 0])\<rparr>"

text \<open>
  An RGBA image 3 by 1: a transparent and an opaque pixel of the colour R=200, G=100,
  B=50, and a pixel of alpha 128 of the colour R=3, G=1, B=255.
\<close>

definition three_alphas_image :: image where
  "three_alphas_image = \<lparr>mode = ''RGBA'', size_image = (3, 1),
     load = (\<lambda>p. if p = (0, 0) then Bands [200, 100, 50, 0]
                 else if p = (1, 0) then Bands [200, 100, 50, 255]
                 else Bands [3, 1, 255, 128])\<rparr>"

text \<open>
  A 3 by 3 pick image with the identifiers 7 (box 1,1,2,2) and 9 (box 0,0,1,1), a host
  that serves image bytes and one whose image entity raises, and states of the sensor.
\<close>

definition gizmo_image :: image where
  "gizmo_image = \<lparr>mode = ''RGBA'', size_image = (3, 3),
     load = (\<lambda>p. if p = (1, 2) \<or> p = (2, 1) then Bands [7, 0, 0, 255]
                 else if p = (0, 1) \<or> p = (1, 0) then Bands [9, 0, 0, 255]
                 else Bands [0, 0, 0, 0])\<rparr>"

definition serving_host :: hass where
  "serving_host = \<lparr>image_component = Some [''image.pick'' \<mapsto> Inr (Some [1, 2, 3])],
     utcnow = 1000\<rparr>"

definition failing_host :: hass where
  "failing_host = \<lparr>image_component = Some [''image.pick'' \<mapsto> Inl OSError],
     utcnow = 1000\<rparr>"

definition populated_world :: world where
  "populated_world =
     \<lparr>self = \<lparr>self_pick_image_entity_id = Some ''image.pick'', self_object_count = 1,
         self_objects = [(''7'', \<lparr>name = ''Gizmo'', bbox = Some [1, 1, 2, 2]\<rparr>)],
         self_image_width = 3, self_image_height = 3\<rparr>,
      written = [], entry_data = Some \<lparr>jpeg_bytes = None, jpeg_updated = None\<rparr>\<rparr>"

definition fresh_world :: world where
  "fresh_world = \<lparr>self = init_sensor (Some ''image.pick''), written = [],
     entry_data = Some \<lparr>jpeg_bytes = None, jpeg_updated = None\<rparr>\<rparr>"

definition gizmo_names :: "(string \<times> string) list" where
  "gizmo_names = [(''7'', ''Gizmo'')]"

definition gizmo_widget_names :: "(string \<times> string) list" where
  "gizmo_widget_names = [(''7'', ''Gizmo''), (''8'', ''Widget'')]"

definition gizmo_sensor :: sensor where
  "gizmo_sensor = \<lparr>self_pick_image_entity_id = Some ''image.pick'', self_object_count = 1,
     self_objects = [(''7'', \<lparr>name = ''Gizmo'', bbox = Some [1, 1, 2, 2]\<rparr>)],
     self_image_width = 3, self_image_height = 3\<rparr>"

definition boxless_sensor :: sensor where
  "boxless_sensor = \<lparr>self_pick_image_entity_id = Some ''image.pick'', self_object_count = 1,
     self_objects = [(''7'', \<lparr>name = ''Gizmo'', bbox = None\<rparr>)],
     self_image_width = 3, self_image_height = 3\<rparr>"

definition gizmo_widget_sensor :: sensor where
  "gizmo_widget_sensor = \<lparr>self_pick_image_entity_id = Some ''image.pick'',
     self_object_count = 2,
     self_objects = [(''7'', \<lparr>name = ''Gizmo'', bbox = Some [1, 1, 2, 2]\<rparr>),
                     (''8'', \<lparr>name = ''Widget'', bbox = None\<rparr>)],
     self_image_width = 3, self_image_height = 3\<rparr>"

section \<open>Properties of the identifier\<close>

lemma nat_below_16:
  "d < 16 \<Longrightarrow> d \<in> {0, 1, 2, 3, 4, 5, 6, 7, 8, 9, 10, 11, 12, 13, 14, 15::nat}"
  by simp arith

lemma hex_value_digit_char: "d < 16 \<Longrightarrow> hex_value (digit_char d) = Some d"
  by (drule nat_below_16) (elim insertE emptyE; simp add: hex_value_def digit_char_def)

lemma format_02X_byte:
  assumes "n < 256"
  shows "format_02X n = [digit_char (n div 16), digit_char (n mod 16)]"
proof (cases "n < 16")
  case True
  then show ?thesis
    by (simp add: format_02X_def hex_upper.simps[of n] digit_char_def)
next
  case False
  with assms have "n div 16 < 16" by simp
  with False show ?thesis
    by (simp add: format_02X_def hex_upper.simps[of n] hex_upper.simps[of "n div 16"])
qed

lemma int_base16_six_digits:
  assumes "d1 < 16" "d2 < 16" "d3 < 16" "d4 < 16" "d5 < 16" "d6 < 16"
  shows "int_base16 (''0x'' @ [digit_char d1, digit_char d2] @ [digit_char d3, digit_char d4]
            @ [digit_char d5, digit_char d6])
         = Inr (((((d1 * 16 + d2) * 16 + d3) * 16 + d4) * 16 + d5) * 16 + d6)"
  using assms by (simp add: int_base16_def hex_value_digit_char)

lemma unat_byte_less: "unat (c :: byte) < 256"
  using unsigned_less[of c, where ?'a = nat] by simp

lemma two_hex_digits: "(n::nat) div 16 * 16 + n mod 16 = n"
  by simp

lemma bgr_identify_id_value:
  "bgr_identify_id r g b = Inr (str (unat b * 65536 + unat g * 256 + unat r))"
proof -
  have lt: "unat b div 16 < 16" "unat g div 16 < 16" "unat r div 16 < 16"
    using unat_byte_less[of b] unat_byte_less[of g] unat_byte_less[of r] by simp_all
  have md: "unat b mod 16 < 16" "unat g mod 16 < 16" "unat r mod 16 < 16"
    by simp_all
  have val: "((((unat b div 16 * 16 + unat b mod 16) * 16 + unat g div 16) * 16
        + unat g mod 16) * 16 + unat r div 16) * 16 + unat r mod 16
      = unat b * 65536 + unat g * 256 + unat r"
    unfolding two_hex_digits by simp
  show ?thesis
    unfolding bgr_identify_id_def format_02X_byte[OF unat_byte_less]
      int_base16_six_digits[OF lt(1) md(1) lt(2) md(2) lt(3) md(3)] val
    by (simp add: bind_def)
qed

section \<open>One step of the scan\<close>

lemma bind_Inr [simp]: "bind (Inr v) f = f v"
  by (simp add: bind_def)

lemma bind_Inl [simp]: "bind (Inl e) f = Inl e"
  by (simp add: bind_def)

lemma bind_eq_Inr: "bind m f = Inr r \<longleftrightarrow> (\<exists>v. m = Inr v \<and> f v = Inr r)"
  by (cases m) simp_all

lemma process_pixel_error:
  "unpack4 (pixels (x, y)) = Inl e \<Longrightarrow> process_pixel pixels x y st = Inl e"
  by (simp add: process_pixel_def)

lemma process_pixel_transparent:
  "unpack4 (pixels (x, y)) = Inr (r, g, b, 0) \<Longrightarrow> process_pixel pixels x y st = Inr st"
  by (simp add: process_pixel_def)

lemma pixel_identifier_opaque:
  "unpack4 c = Inr (r, g, b, a) \<Longrightarrow> a \<noteq> 0 \<Longrightarrow>
   pixel_identifier c = Some (str (unat b * 65536 + unat g * 256 + unat r))"
  by (simp add: pixel_identifier_def)

lemma pixel_identifier_transparent:
  "unpack4 c = Inr (r, g, b, 0) \<Longrightarrow> pixel_identifier c = None"
  by (simp add: pixel_identifier_def)

lemma pixel_identifier_error: "unpack4 c = Inl e \<Longrightarrow> pixel_identifier c = None"
  by (simp add: pixel_identifier_def)

lemma lookup_identify_id_cached:
  assumes "cache_ok seen" "unpack4 c = Inr (r, g, b, a)" "a \<noteq> 0"
  shows "\<exists>seen'. lookup_identify_id seen c r g b
            = Inr (str (unat b * 65536 + unat g * 256 + unat r), seen') \<and> cache_ok seen'"
proof (cases "seen c")
  case None
  have "cache_ok (seen(c \<mapsto> str (unat b * 65536 + unat g * 256 + unat r)))"
    using assms by (auto simp: cache_ok_def pixel_identifier_opaque)
  with None show ?thesis
    by (simp add: lookup_identify_id_def bgr_identify_id_value)
next
  case (Some i)
  with assms(1) have "pixel_identifier c = Some i"
    by (simp add: cache_ok_def)
  with pixel_identifier_opaque[OF assms(2,3)]
  have "i = str (unat b * 65536 + unat g * 256 + unat r)"
    by simp
  with Some assms(1) show ?thesis
    by (simp add: lookup_identify_id_def)
qed

lemma expand_bbox_four:
  "expand_bbox [a, b, c, d] x y = Inr [min x a, min y b, max x c, max y d]"
  by (simp add: expand_bbox_def getitem_def setitem_def min_def max_def)

lemma box_of_single: "box_of {(x, y)} = [x, y, x, y]"
  by (simp add: box_of_def)

lemma box_of_insert:
  assumes "finite P" "P \<noteq> {}"
  shows "box_of (insert (x, y) P)
         = [min x (Min (fst ` P)), min y (Min (snd ` P)), max x (Max (fst ` P)), max y (Max (snd ` P))]"
  using assms by (simp add: box_of_def)

lemma points_insert:
  "points pixels (insert p S) k =
     (if pixel_identifier (pixels p) = Some k then insert p (points pixels S k)
      else points pixels S k)"
  by (auto simp: points_def)

lemma finite_points: "finite S \<Longrightarrow> finite (points pixels S k)"
  by (simp add: points_def)

lemma update_bounding_box_inv:
  assumes fin: "finite S"
    and inv: "\<forall>k. bbs k = (if points pixels S k = {} then None else Some (box_of (points pixels S k)))"
    and pid: "pixel_identifier (pixels (x, y)) = Some i"
  shows "\<exists>bbs'. update_bounding_box bbs i x y = Inr bbs' \<and>
           (\<forall>k. bbs' k = (if points pixels (insert (x, y) S) k = {} then None
                           else Some (box_of (points pixels (insert (x, y) S) k))))"
proof (cases "points pixels S i = {}")
  case True
  with inv have "bbs i = None" by simp
  then have upd: "update_bounding_box bbs i x y = Inr (bbs(i \<mapsto> [x, y, x, y]))"
    by (simp add: update_bounding_box_def)
  have "\<forall>k. (bbs(i \<mapsto> [x, y, x, y])) k =
          (if points pixels (insert (x, y) S) k = {} then None
           else Some (box_of (points pixels (insert (x, y) S) k)))"
    using inv pid True by (simp add: points_insert box_of_single)
  with upd show ?thesis by blast
next
  case False
  let ?P = "points pixels S i"
  from False inv have old: "bbs i = Some (box_of ?P)" by simp
  have exp: "expand_bbox (box_of ?P) x y = Inr (box_of (insert (x, y) ?P))"
    unfolding box_of_insert[OF finite_points[OF fin] False]
    by (simp add: box_of_def expand_bbox_four)
  have upd: "update_bounding_box bbs i x y = Inr (bbs(i \<mapsto> box_of (insert (x, y) ?P)))"
    by (simp add: update_bounding_box_def old exp)
  have "\<forall>k. (bbs(i \<mapsto> box_of (insert (x, y) ?P))) k =
          (if points pixels (insert (x, y) S) k = {} then None
           else Some (box_of (points pixels (insert (x, y) S) k)))"
    using inv pid by (simp add: points_insert)
  with upd show ?thesis by blast
qed

lemma process_pixel_opaque:
  assumes inv: "scan_inv pixels S st"
    and px: "unpack4 (pixels (x, y)) = Inr (r, g, b, a)" and a: "a \<noteq> 0"
  shows "\<exists>st'. process_pixel pixels x y st = Inr st' \<and> scan_inv pixels (insert (x, y) S) st'"
proof -
  let ?i = "str (unat b * 65536 + unat g * 256 + unat r)"
  from inv have fin: "finite S" and cache: "cache_ok (seen_colors st)"
    and bx: "\<forall>k. boxes st k =
      (if points pixels S k = {} then None else Some (box_of (points pixels S k)))"
    by (simp_all add: scan_inv_def)
  obtain seen' where
    lk: "lookup_identify_id (seen_colors st) (pixels (x, y)) r g b = Inr (?i, seen')"
    and cache': "cache_ok seen'"
    using lookup_identify_id_cached[OF cache px a] by blast
  have pid: "pixel_identifier (pixels (x, y)) = Some ?i"
    using px a by (rule pixel_identifier_opaque)
  obtain bbs' where
    ub: "update_bounding_box (boxes st) ?i x y = Inr bbs'"
    and bx': "\<forall>k. bbs' k = (if points pixels (insert (x, y) S) k = {} then None
                           else Some (box_of (points pixels (insert (x, y) S) k)))"
    using update_bounding_box_inv[OF fin bx pid] by blast
  have "process_pixel pixels x y st = Inr \<lparr>boxes = bbs', seen_colors = seen'\<rparr>"
    using px a lk ub by (simp add: process_pixel_def)
  moreover have "scan_inv pixels (insert (x, y) S) \<lparr>boxes = bbs', seen_colors = seen'\<rparr>"
    using fin cache' bx' by (simp add: scan_inv_def)
  ultimately show ?thesis by blast
qed

lemma process_pixel_skip_inv:
  assumes inv: "scan_inv pixels S st" and px: "unpack4 (pixels (x, y)) = Inr (r, g, b, 0)"
  shows "scan_inv pixels (insert (x, y) S) st"
  using inv pixel_identifier_transparent[OF px]
  by (simp add: scan_inv_def points_insert)

lemma process_pixel_inv:
  assumes inv: "scan_inv pixels S st" and px: "unpack4 (pixels (x, y)) = Inr q"
  shows "\<exists>st'. process_pixel pixels x y st = Inr st' \<and> scan_inv pixels (insert (x, y) S) st'"
proof -
  obtain r g b a where q: "q = (r, g, b, a)" by (cases q) auto
  show ?thesis
  proof (cases "a = 0")
    case True
    with px q have px0: "unpack4 (pixels (x, y)) = Inr (r, g, b, 0)" by simp
    have "process_pixel pixels x y st = Inr st"
      using px0 by (rule process_pixel_transparent)
    with process_pixel_skip_inv[OF inv px0] show ?thesis by blast
  next
    case False
    from px q have "unpack4 (pixels (x, y)) = Inr (r, g, b, a)" by simp
    from process_pixel_opaque[OF inv this False] show ?thesis .
  qed
qed

section \<open>The two loops\<close>

lemma scan_list_append:
  "scan_list pixels (cs @ ds) st = bind (scan_list pixels cs st) (scan_list pixels ds)"
proof (induction cs arbitrary: st)
  case Nil
  show ?case by simp
next
  case (Cons c cs)
  obtain x y where c: "c = (x, y)" by (cases c) auto
  show ?case
    by (cases "process_pixel pixels x y st") (simp_all add: c Cons.IH)
qed

lemma for_x_scan_list: "for_x pixels y xs st = scan_list pixels (map (\<lambda>x. (x, y)) xs) st"
proof (induction xs arbitrary: st)
  case Nil
  show ?case by simp
next
  case (Cons x xs)
  show ?case
    by (cases "process_pixel pixels x y st") (simp_all add: Cons.IH)
qed

lemma for_y_scan_list: "for_y pixels w ys st = scan_list pixels (scan_order w ys) st"
proof (induction ys arbitrary: st)
  case Nil
  show ?case by (simp add: scan_order_def)
next
  case (Cons y ys)
  have "scan_order w (y # ys) = row_coords w y @ scan_order w ys"
    by (simp add: scan_order_def)
  then show ?case
    by (cases "scan_list pixels (row_coords w y) st")
       (simp_all add: scan_list_append for_x_scan_list row_coords_def Cons.IH)
qed

lemma set_scan_order: "set (scan_order w ys) = {0..<w} \<times> set ys"
  by (auto simp: scan_order_def row_coords_def)

lemma scan_inv_initial: "scan_inv pixels {} initial_state"
  by (simp add: scan_inv_def initial_state_def cache_ok_def points_def)

lemma process_pixel_Inr_unpack:
  assumes "process_pixel pixels x y st = Inr st'"
  shows "\<exists>q. unpack4 (pixels (x, y)) = Inr q"
proof (cases "unpack4 (pixels (x, y))")
  case (Inl e)
  with assms show ?thesis by (simp add: process_pixel_def)
next
  case (Inr q)
  then show ?thesis by blast
qed

lemma scan_list_total:
  assumes "scan_inv pixels S st" and "\<forall>p \<in> set cs. \<exists>q. unpack4 (pixels p) = Inr q"
  shows "\<exists>st'. scan_list pixels cs st = Inr st' \<and> scan_inv pixels (S \<union> set cs) st'"
  using assms
proof (induction cs arbitrary: S st)
  case Nil
  then show ?case by simp
next
  case (Cons c cs)
  obtain x y where c: "c = (x, y)" by (cases c) auto
  from Cons.prems(2) c obtain q where q: "unpack4 (pixels (x, y)) = Inr q" by auto
  from process_pixel_inv[OF Cons.prems(1) q] obtain st1 where
    st1: "process_pixel pixels x y st = Inr st1" and inv1: "scan_inv pixels (insert (x, y) S) st1"
    by blast
  from Cons.prems(2) have rest: "\<forall>p \<in> set cs. \<exists>q. unpack4 (pixels p) = Inr q" by simp
  from Cons.IH[OF inv1 rest] obtain st' where
    "scan_list pixels cs st1 = Inr st'" "scan_inv pixels (insert (x, y) S \<union> set cs) st'"
    by blast
  then show ?case by (simp add: c st1)
qed

lemma scan_list_Inr_inv:
  assumes "scan_inv pixels S st" and "scan_list pixels cs st = Inr st'"
  shows "scan_inv pixels (S \<union> set cs) st'"
  using assms
proof (induction cs arbitrary: S st)
  case Nil
  then show ?case by simp
next
  case (Cons c cs)
  obtain x y where c: "c = (x, y)" by (cases c) auto
  from Cons.prems(2) c obtain st1 where
    st1: "process_pixel pixels x y st = Inr st1" and rest: "scan_list pixels cs st1 = Inr st'"
    by (auto simp: bind_eq_Inr)
  from process_pixel_Inr_unpack[OF st1] obtain q where q: "unpack4 (pixels (x, y)) = Inr q"
    by blast
  from process_pixel_inv[OF Cons.prems(1) q] st1
  have inv1: "scan_inv pixels (insert (x, y) S) st1" by simp
  from Cons.IH[OF inv1 rest] show ?case by (simp add: c)
qed

lemma scan_list_first_error:
  assumes "scan_inv pixels S st" and "\<forall>p \<in> set cs. \<exists>q. unpack4 (pixels p) = Inr q"
    and "unpack4 (pixels (x, y)) = Inl e"
  shows "scan_list pixels (cs @ (x, y) # ds) st = Inl e"
proof -
  from scan_list_total[OF assms(1,2)] obtain st' where "scan_list pixels cs st = Inr st'"
    by blast
  moreover have "process_pixel pixels x y st' = Inl e"
    using assms(3) by (rule process_pixel_error)
  ultimately show ?thesis
    by (simp add: scan_list_append)
qed

lemma compute_bounding_boxes_scan:
  "compute_bounding_boxes pil image_bytes =
     bind (Image_open pil image_bytes) (\<lambda>image.
       bind (scan_list (load image)
               (scan_order (fst (size_image image)) [0..<snd (size_image image)]) initial_state)
         (\<lambda>st. Inr \<lparr>image_width = fst (size_image image),
                    image_height = snd (size_image image), bboxes = boxes st\<rparr>))"
  by (simp add: compute_bounding_boxes_def for_y_scan_list initial_state_def case_prod_beta)

section \<open>The result of the extractor\<close>

lemma list_of_length_four: "length t = 4 \<Longrightarrow> t = [t ! 0, t ! 1, t ! 2, t ! 3]"
  by (auto simp: list_eq_iff_nth_eq less_Suc_eq numeral_eq_Suc)

lemma unpack4_Bands [simp]: "unpack4 (Bands [r, g, b, a]) = Inr (r, g, b, a)"
  by (simp add: unpack4_def)

lemma unpack4_Inr_iff: "unpack4 p = Inr (r, g, b, a) \<longleftrightarrow> p = Bands [r, g, b, a]"
proof
  assume u: "unpack4 p = Inr (r, g, b, a)"
  then obtain t where p: "p = Bands t" by (cases p) (simp_all add: unpack4_def)
  with u have len: "length t = 4" and "t ! 0 = r" "t ! 1 = g" "t ! 2 = b" "t ! 3 = a"
    by (simp_all add: unpack4_def split: if_splits)
  with list_of_length_four[OF len] p show "p = Bands [r, g, b, a]" by simp
qed simp

lemma unpack4_Inl_not_Bands:
  assumes "unpack4 p = Inl e"
  shows "p \<noteq> Bands [r, g, b, a]"
proof
  assume "p = Bands [r, g, b, a]"
  with assms show False by simp
qed

lemma not_Bands_unpack4_Inl:
  assumes "\<forall>r g b a. p \<noteq> Bands [r, g, b, a]"
  shows "\<exists>e. unpack4 p = Inl e"
proof (cases "unpack4 p")
  case (Inl e)
  then show ?thesis by blast
next
  case (Inr q)
  obtain r g b a where "q = (r, g, b, a)" by (cases q) auto
  with Inr have "p = Bands [r, g, b, a]" by (simp add: unpack4_Inr_iff)
  with assms show ?thesis by blast
qed

lemma unpack4_errors: "unpack4 p = Inl e \<Longrightarrow> e = TypeError \<or> e = ValueError"
  by (cases p) (simp_all add: unpack4_def split: if_splits)

lemma pixel_identifier_Some_iff:
  "pixel_identifier p = Some k \<longleftrightarrow>
     (\<exists>r g b a. p = Bands [r, g, b, a] \<and> a \<noteq> 0 \<and>
        k = str (unat b * 65536 + unat g * 256 + unat r))"
proof (cases "unpack4 p")
  case (Inl e)
  then have "\<forall>r g b a. p \<noteq> Bands [r, g, b, a]"
    using unpack4_Inl_not_Bands by blast
  moreover have "pixel_identifier p = None" using Inl by (rule pixel_identifier_error)
  ultimately show ?thesis by auto
next
  case (Inr q)
  obtain r g b a where q: "q = (r, g, b, a)" by (cases q) auto
  with Inr have p: "p = Bands [r, g, b, a]" by (simp add: unpack4_Inr_iff)
  show ?thesis by (auto simp: p pixel_identifier_def)
qed

lemma id_pixels_points:
  "size_image im = (w, h) \<Longrightarrow> id_pixels im k = points (load im) ({0..<w} \<times> {0..<h}) k"
  by (auto simp: id_pixels_def points_def pixel_identifier_Some_iff)

lemma finite_id_pixels: "finite (id_pixels im k)"
proof -
  obtain w h where "size_image im = (w, h)" by (cases "size_image im") auto
  then show ?thesis by (simp add: id_pixels_points finite_points)
qed

lemma compute_bounding_boxes_Inr:
  assumes dec: "Image_open pil image_bytes = Inr im" and sz: "size_image im = (w, h)"
    and res: "compute_bounding_boxes pil image_bytes = Inr res"
  shows "image_width res = w \<and> image_height res = h \<and>
         (\<forall>k. bboxes res k = (if id_pixels im k = {} then None else Some (box_of (id_pixels im k))))"
proof -
  from res dec sz obtain st where
    sc: "scan_list (load im) (scan_order w [0..<h]) initial_state = Inr st"
    and r: "res = \<lparr>image_width = w, image_height = h, bboxes = boxes st\<rparr>"
    by (auto simp: compute_bounding_boxes_scan bind_eq_Inr)
  from scan_list_Inr_inv[OF scan_inv_initial sc]
  have "scan_inv (load im) ({0..<w} \<times> {0..<h}) st" by (simp add: set_scan_order)
  then show ?thesis
    by (simp add: r scan_inv_def id_pixels_points[OF sz])
qed

lemma compute_bounding_boxes_total:
  assumes dec: "Image_open pil image_bytes = Inr im" and sz: "size_image im = (w, h)"
    and four: "\<forall>x<w. \<forall>y<h. \<exists>r g b a. load im (x, y) = Bands [r, g, b, a]"
  shows "\<exists>bbs. compute_bounding_boxes pil image_bytes
           = Inr \<lparr>image_width = w, image_height = h, bboxes = bbs\<rparr>"
proof -
  have "\<forall>p \<in> set (scan_order w [0..<h]). \<exists>q. unpack4 (load im p) = Inr q"
  proof
    fix p assume "p \<in> set (scan_order w [0..<h])"
    then obtain x y where "p = (x, y)" "x < w" "y < h"
      by (auto simp: set_scan_order)
    with four obtain r g b a where "load im p = Bands [r, g, b, a]" by blast
    then show "\<exists>q. unpack4 (load im p) = Inr q" by simp
  qed
  from scan_list_total[OF scan_inv_initial this] obtain st where
    "scan_list (load im) (scan_order w [0..<h]) initial_state = Inr st" by blast
  then show ?thesis
    by (simp add: compute_bounding_boxes_scan dec sz)
qed

lemma compute_bounding_boxes_error:
  assumes dec: "Image_open pil image_bytes = Inr im" and sz: "size_image im = (w, h)"
    and bad: "x < w" "y < h" "\<forall>r g b a. load im (x, y) \<noteq> Bands [r, g, b, a]"
  shows "compute_bounding_boxes pil image_bytes = Inl TypeError \<or>
         compute_bounding_boxes pil image_bytes = Inl ValueError"
proof -
  let ?ok = "\<lambda>p. \<exists>q. unpack4 (load im p) = Inr q"
  have "(x, y) \<in> set (scan_order w [0..<h])" using bad(1,2) by (simp add: set_scan_order)
  moreover have "\<not> ?ok (x, y)" using not_Bands_unpack4_Inl[OF bad(3)] by auto
  ultimately have "\<exists>p \<in> set (scan_order w [0..<h]). \<not> ?ok p" by blast
  from split_list_first_prop[OF this] obtain cs p ds where
    split: "scan_order w [0..<h] = cs @ p # ds" and p: "\<not> ?ok p"
    and cs: "\<forall>c \<in> set cs. \<not> \<not> ?ok c"
    by blast
  obtain x' y' where xy: "p = (x', y')" by (cases p) auto
  from p xy obtain e where e: "unpack4 (load im (x', y')) = Inl e"
    by (cases "unpack4 (load im (x', y'))") auto
  from cs have cs': "\<forall>c \<in> set cs. \<exists>q. unpack4 (load im c) = Inr q" by simp
  have "scan_list (load im) (scan_order w [0..<h]) initial_state = Inl e"
    unfolding split xy by (rule scan_list_first_error[OF scan_inv_initial cs' e])
  then have "compute_bounding_boxes pil image_bytes = Inl e"
    by (simp add: compute_bounding_boxes_scan dec sz)
  with unpack4_errors[OF e] show ?thesis by auto
qed

lemma compute_bounding_boxes_decode_error:
  "Image_open pil image_bytes = Inl e \<Longrightarrow> compute_bounding_boxes pil image_bytes = Inl e"
  by (simp add: compute_bounding_boxes_def)

lemma box_of_contains:
  assumes "finite P" "(x, y) \<in> P"
  shows "box_of P ! 0 \<le> x \<and> x \<le> box_of P ! 2 \<and> box_of P ! 1 \<le> y \<and> y \<le> box_of P ! 3"
proof -
  from assms have "x \<in> fst ` P" "y \<in> snd ` P" by force+
  with assms(1) show ?thesis by (simp add: box_of_def)
qed

lemma box_of_attained:
  assumes "finite P" "P \<noteq> {}"
  shows "\<exists>p0 \<in> P. \<exists>p1 \<in> P. \<exists>p2 \<in> P. \<exists>p3 \<in> P. box_of P = [fst p0, snd p1, fst p2, snd p3]"
proof -
  from assms have f: "finite (fst ` P)" "fst ` P \<noteq> {}" "finite (snd ` P)" "snd ` P \<noteq> {}"
    by simp_all
  from Min_in[OF f(1,2)] obtain p0 where p0: "p0 \<in> P" "Min (fst ` P) = fst p0" by auto
  from Min_in[OF f(3,4)] obtain p1 where p1: "p1 \<in> P" "Min (snd ` P) = snd p1" by auto
  from Max_in[OF f(1,2)] obtain p2 where p2: "p2 \<in> P" "Max (fst ` P) = fst p2" by auto
  from Max_in[OF f(3,4)] obtain p3 where p3: "p3 \<in> P" "Max (snd ` P) = snd p3" by auto
  show ?thesis
    unfolding box_of_def p0(2) p1(2) p2(2) p3(2) using p0(1) p1(1) p2(1) p3(1) by blast
qed

section \<open>The sensor\<close>

lemma update_new_key: "k \<notin> fst ` set al \<Longrightarrow> AList.update k v al = al @ [(k, v)]"
  by (induction al) auto

lemma merge_loop_distinct:
  assumes "distinct (map fst items)" and "fst ` set items \<inter> fst ` set merged = {}"
  shows "merge_loop items bbs merged = merged @ merged_record items bbs"
  using assms
proof (induction items arbitrary: merged)
  case Nil
  show ?case by (simp add: merged_record_def)
next
  case (Cons item items)
  obtain k n where item: "item = (k, n)" by (cases item) auto
  let ?obj = "\<lparr>name = n, bbox = bbs k\<rparr>"
  have obj: "(case bbs k of Some b \<Rightarrow> \<lparr>name = n, bbox = None\<rparr>\<lparr>bbox := Some b\<rparr>
                          | None \<Rightarrow> \<lparr>name = n, bbox = None\<rparr>) = ?obj"
    by (cases "bbs k") simp_all
  from Cons.prems item have fresh: "k \<notin> fst ` set merged" by auto
  from Cons.prems item have d: "distinct (map fst items)"
    and disj: "fst ` set items \<inter> fst ` set (merged @ [(k, ?obj)]) = {}"
    by auto
  have "merge_loop (item # items) bbs merged = merge_loop items bbs (merged @ [(k, ?obj)])"
    by (simp add: item obj update_new_key[OF fresh])
  also have "\<dots> = (merged @ [(k, ?obj)]) @ merged_record items bbs"
    by (rule Cons.IH[OF d disj])
  finally show ?case by (simp add: item merged_record_def)
qed

lemma merge_loop_dict:
  "distinct (map fst objects_attr) \<Longrightarrow>
   merge_loop objects_attr bbs [] = merged_record objects_attr bbs"
  using merge_loop_distinct[of objects_attr "[]" bbs] by simp

lemma keys_update: "fst ` set (AList.update k v al) = insert k (fst ` set al)"
  by (induction al) auto

lemma keys_merge_loop:
  "fst ` set (merge_loop items bbs merged) = fst ` set merged \<union> fst ` set items"
proof (induction items arbitrary: merged)
  case Nil
  show ?case by simp
next
  case (Cons item items)
  obtain k n where item: "item = (k, n)" by (cases item) auto
  show ?case
    by (simp add: item Cons.IH Let_def keys_update)
qed

lemma self_async_write_ha_state [simp]: "self (async_write_ha_state w) = self w"
  by (simp add: async_write_ha_state_def)

lemma written_async_write_ha_state [simp]:
  "written (async_write_ha_state w) = written w @ [self w]"
  by (simp add: async_write_ha_state_def)

lemma self_store_jpeg [simp]: "self (store_jpeg pil hs image_bytes w) = self w"
  by (simp add: store_jpeg_def split: sum.split)

lemma written_store_jpeg [simp]: "written (store_jpeg pil hs image_bytes w) = written w"
  by (simp add: store_jpeg_def split: sum.split)

lemma process_plate_data_empty:
  "process_plate_data pil hs [] w =
     Inr (async_write_ha_state
       (w\<lparr>self := (self w)\<lparr>self_object_count := 0, self_objects := [],
              self_image_width := 0, self_image_height := 0\<rparr>\<rparr>))"
  by (simp add: process_plate_data_def)

lemma process_plate_data_success:
  assumes "objects_attr \<noteq> []" and "self_pick_image_entity_id (self w) \<noteq> None"
    and "async_get_pick_image hs (self w) = Some image_bytes"
    and "compute_bounding_boxes pil image_bytes = Inr result"
  shows "process_plate_data pil hs objects_attr w =
     Inr (async_write_ha_state (store_jpeg pil hs image_bytes
       (w\<lparr>self := (self w)\<lparr>
            self_object_count := length (merge_loop objects_attr (bboxes result) []),
            self_objects := merge_loop objects_attr (bboxes result) [],
            self_image_width := image_width result,
            self_image_height := image_height result\<rparr>\<rparr>)))"
  using assms by (simp add: process_plate_data_def Let_def)

lemma process_plate_data_no_image:
  assumes "objects_attr \<noteq> []" and "self_pick_image_entity_id (self w) \<noteq> None"
    and "async_get_pick_image hs (self w) = None"
  shows "process_plate_data pil hs objects_attr w = Inr w"
  using assms by (simp add: process_plate_data_def)

lemma process_plate_data_extractor_error:
  assumes "objects_attr \<noteq> []" and "self_pick_image_entity_id (self w) \<noteq> None"
    and "async_get_pick_image hs (self w) = Some image_bytes"
    and "compute_bounding_boxes pil image_bytes = Inl e"
  shows "process_plate_data pil hs objects_attr w = Inr w"
  using assms by (simp add: process_plate_data_def)

lemma process_plate_data_cases:
  assumes "process_plate_data pil hs objects_attr w = Inr w'"
  obtains (reset) "objects_attr = []"
  | (unchanged) "objects_attr \<noteq> []" "w' = w"
  | (success) image_bytes result where "objects_attr \<noteq> []"
      "self_pick_image_entity_id (self w) \<noteq> None"
      "async_get_pick_image hs (self w) = Some image_bytes"
      "compute_bounding_boxes pil image_bytes = Inr result"
  using assms
  by (auto simp: process_plate_data_def split: if_splits option.splits sum.splits)

lemma parts_loop_segments:
  "four_bounds items \<Longrightarrow> parts_loop items parts = Inr (parts @ map segment items)"
proof (induction items arbitrary: parts)
  case Nil
  show ?case by simp
next
  case (Cons item items)
  obtain k obj where item: "item = (k, obj)" by (cases item) auto
  from Cons.prems have rest: "four_bounds items" by (simp add: four_bounds_def)
  have "format_object k obj = Inr (segment (k, obj))"
  proof (cases "bbox obj")
    case None
    then show ?thesis by (simp add: format_object_def segment_def)
  next
    case (Some b)
    with Cons.prems item have "length b = 4" by (simp add: four_bounds_def)
    with Some show ?thesis
      by (auto simp: format_object_def segment_def getitem_def)
  qed
  then show ?case by (simp add: item Cons.IH[OF rest])
qed

lemma bbox_data_serialized_segments:
  assumes "four_bounds (self_objects s)"
  shows "bbox_data_serialized s = Inr (join ''|'' (map segment (self_objects s)))"
  using parts_loop_segments[OF assms, of "[]"]
  by (simp add: bbox_data_serialized_def)

lemma four_bounds_merge_loop:
  assumes "\<forall>k b. bbs k = Some b \<longrightarrow> length b = 4" and "four_bounds merged"
  shows "four_bounds (merge_loop items bbs merged)"
  using assms(2)
proof (induction items arbitrary: merged)
  case Nil
  then show ?case by simp
next
  case (Cons item items)
  obtain k n where item: "item = (k, n)" by (cases item) auto
  let ?obj = "case bbs k of Some b \<Rightarrow> \<lparr>name = n, bbox = None\<rparr>\<lparr>bbox := Some b\<rparr>
                          | None \<Rightarrow> \<lparr>name = n, bbox = None\<rparr>"
  have "four_bounds (AList.update k ?obj merged)"
    using Cons.prems assms(1)
    by (induction merged) (auto simp: four_bounds_def split: option.split)
  from Cons.IH[OF this] show ?case by (simp add: item Let_def)
qed

lemma compute_bounding_boxes_four_bounds:
  assumes "compute_bounding_boxes pil image_bytes = Inr result" and "bboxes result k = Some b"
  shows "length b = 4"
proof -
  from assms(1) obtain im where dec: "Image_open pil image_bytes = Inr im"
    by (auto simp: compute_bounding_boxes_def bind_eq_Inr)
  obtain w h where sz: "size_image im = (w, h)" by (cases "size_image im") auto
  from compute_bounding_boxes_Inr[OF dec sz assms(1)] assms(2)
  have "b = box_of (id_pixels im k)" by (auto split: if_splits)
  then show ?thesis by (simp add: box_of_def)
qed

section \<open>Evaluation on concrete inputs\<close>

lemma upt_0_numeral: "[0..<numeral n] = 0 # [Suc 0..<numeral n]"
  by (simp add: upt_rec[of 0])

lemma upt_1_numeral:
  "[Suc 0..<numeral n] = (if Suc 0 < numeral n then Suc 0 # [2..<numeral n] else [])"
  by (subst upt_rec) (simp add: numeral_2_eq_2)

lemmas scan_eval = upt_0_numeral upt_1_numeral bind_def unpack4_def int_base16_def
  hex_value_def format_02X_def hex_upper.simps str.simps digit_char_def getitem_def
  setitem_def process_pixel_def lookup_identify_id_def bgr_identify_id_def
  update_bounding_box_def expand_bbox_def initial_state_def compute_bounding_boxes_def
  fixed_decoder_def reference_pillow_def

lemma compute_pick_image_one:
  "compute_bounding_boxes (reference_pillow (fixed_decoder pick_image_one)) image_bytes =
     Inr \<lparr>image_width = 11, image_height = 6, bboxes = [''197121'' \<mapsto> [5, 5, 5, 5]]\<rparr>"
  by (simp add: scan_eval pick_image_one_def)

lemma compute_pick_image_two:
  "compute_bounding_boxes (reference_pillow (fixed_decoder pick_image_two)) image_bytes =
     Inr \<lparr>image_width = 11, image_height = 6, bboxes = [''197121'' \<mapsto> [5, 2, 10, 5]]\<rparr>"
  by (simp add: scan_eval pick_image_two_def)

lemma compute_gizmo_image:
  "compute_bounding_boxes (reference_pillow (fixed_decoder gizmo_image)) image_bytes =
     Inr \<lparr>image_width = 3, image_height = 3,
          bboxes = [''9'' \<mapsto> [0, 0, 1, 1], ''7'' \<mapsto> [1, 1, 2, 2]]\<rparr>"
  by (simp add: scan_eval gizmo_image_def)

lemma compute_rgb_image:
  "compute_bounding_boxes (reference_pillow (fixed_decoder rgb_image)) image_bytes = Inl ValueError"
  by (simp add: scan_eval rgb_image_def)

lemma compute_grey_image:
  "compute_bounding_boxes (reference_pillow (fixed_decoder grey_image)) image_bytes = Inl TypeError"
  by (simp add: scan_eval grey_image_def)

lemma compute_transparent_image:
  "compute_bounding_boxes (reference_pillow (fixed_decoder transparent_image)) image_bytes =
     Inr \<lparr>image_width = 2, image_height = 2, bboxes = Map.empty\<rparr>"
  by (simp add: scan_eval transparent_image_def)

section \<open>The normalizer\<close>

lemma Image_open_reference [simp]: "Image_open (reference_pillow dec) = dec"
  by (simp add: reference_pillow_def)

subsection \<open>The blend against black\<close>

lemma blend_black_bound: "(unat (v :: byte) * unat (a :: byte) + 127) div 255 \<le> unat v"
proof -
  have "unat a \<le> 255" using unat_byte_less[of a] by simp
  then have "unat v * unat a \<le> unat v * 255" by (rule mult_le_mono2)
  then have "(unat v * unat a + 127) div 255 \<le> (unat v * 255 + 127) div 255"
    by (intro div_le_mono) simp
  also have "\<dots> = unat v" by simp
  finally show ?thesis .
qed

lemma unat_blend_black:
  "unat (blend (unat a) 0 v) = (unat v * unat (a :: byte) + 127) div 255"
proof -
  have "(unat v * unat a + 127) div 255 < 256"
    using blend_black_bound[of v a] unat_byte_less[of v] by simp
  then show ?thesis
    by (simp add: blend_def unat_of_nat)
qed

lemma blend_black_transparent: "blend 0 0 v = 0"
  by (simp add: blend_def)

lemma blend_opaque: "blend 255 c v = v"
  by (simp add: blend_def)

subsection \<open>The test double meets the documentation\<close>

lemma pillow_contract_reference: "pillow_contract (reference_pillow dec)"
  unfolding pillow_contract_def
proof (intro conjI allI impI)
  fix sz and c :: "byte list"
  show "mode (Image_new (reference_pillow dec) ''RGB'' sz c) = ''RGB''"
    and "size_image (Image_new (reference_pillow dec) ''RGB'' sz c) = sz"
    by (simp_all add: reference_pillow_def)
  fix p
  show "load (Image_new (reference_pillow dec) ''RGB'' sz c) p = Bands c"
    by (simp add: reference_pillow_def)
next
  fix im :: image
  assume m: "mode im = ''RGBA''"
  then have sp: "split (reference_pillow dec) im = map (band_image im) [0..<4]"
    by (simp add: reference_pillow_def split_reference_def band_count_def)
  show "length (split (reference_pillow dec) im) = 4"
    by (simp add: sp)
  have b3: "split (reference_pillow dec) im ! 3 = band_image im 3"
    unfolding sp by (simp add: nth_map_upt)
  show "mode (split (reference_pillow dec) im ! 3) = ''L''"
    by (simp add: b3 band_image_def)
  show "size_image (split (reference_pillow dec) im ! 3) = size_image im"
    by (simp add: b3 band_image_def)
  fix p r g b a
  assume "in_bounds im p \<and> load im p = Bands [r, g, b, a]"
  then show "load (split (reference_pillow dec) im ! 3) p = Scalar (int (unat a))"
    by (simp add: b3 band_image_def)
next
  fix bg im mask :: image
  assume h: "mode bg = ''RGB'' \<and> mode im = ''RGBA'' \<and> mode mask = ''L'' \<and>
    size_image im = size_image bg \<and> size_image mask = size_image bg"
  let ?out = "bg\<lparr>load := (\<lambda>p. paste_pixel (load bg p) (load im p) (load mask p))\<rparr>"
  from h have run: "paste (reference_pillow dec) bg im mask = Inr ?out"
    by (simp add: reference_pillow_def paste_reference_def)
  have px: "load ?out p = Bands [blend m c0 r, blend m c1 g, blend m c2 b]"
    if "in_bounds bg p \<and> load bg p = Bands [c0, c1, c2] \<and> load im p = Bands [r, g, b, a] \<and>
        load mask p = Scalar (int m) \<and> m \<le> 255" for p c0 c1 c2 r g b a m
    using that by (simp add: paste_pixel_def)
  from h have "mode ?out = ''RGB''" "size_image ?out = size_image bg" by simp_all
  with run px
  show "\<exists>out. paste (reference_pillow dec) bg im mask = Inr out \<and> mode out = ''RGB'' \<and>
      size_image out = size_image bg \<and>
      (\<forall>p c0 c1 c2 r g b a m.
         in_bounds bg p \<and> load bg p = Bands [c0, c1, c2] \<and>
         load im p = Bands [r, g, b, a] \<and> load mask p = Scalar (int m) \<and> m \<le> 255 \<longrightarrow>
         load out p = Bands [blend m c0 r, blend m c1 g, blend m c2 b])"
    by (intro exI[of _ ?out] conjI allI impI)
qed

subsection \<open>The parts of the documentation\<close>

lemma contract_new:
  assumes "pillow_contract pil" and "length c = 3"
  shows "mode (Image_new pil ''RGB'' sz c) = ''RGB'' \<and>
    size_image (Image_new pil ''RGB'' sz c) = sz \<and>
    (\<forall>p. in_bounds (Image_new pil ''RGB'' sz c) p \<longrightarrow>
       load (Image_new pil ''RGB'' sz c) p = Bands c)"
proof -
  from assms(1) have "\<forall>sz c. length c = 3 \<longrightarrow>
      mode (Image_new pil ''RGB'' sz c) = ''RGB'' \<and>
      size_image (Image_new pil ''RGB'' sz c) = sz \<and>
      (\<forall>p. in_bounds (Image_new pil ''RGB'' sz c) p \<longrightarrow>
         load (Image_new pil ''RGB'' sz c) p = Bands c)"
    unfolding pillow_contract_def by (rule conjunct1)
  from this[THEN spec[where x = sz], THEN spec[where x = c], THEN mp, OF assms(2)]
  show ?thesis .
qed

lemma contract_split:
  assumes "pillow_contract pil" and "mode im = ''RGBA''"
  shows "length (split pil im) = 4 \<and> mode (split pil im ! 3) = ''L'' \<and>
    size_image (split pil im ! 3) = size_image im \<and>
    (\<forall>p r g b a. in_bounds im p \<and> load im p = Bands [r, g, b, a] \<longrightarrow>
       load (split pil im ! 3) p = Scalar (int (unat a)))"
proof -
  from assms(1) have "\<forall>im. mode im = ''RGBA'' \<longrightarrow>
      length (split pil im) = 4 \<and> mode (split pil im ! 3) = ''L'' \<and>
      size_image (split pil im ! 3) = size_image im \<and>
      (\<forall>p r g b a. in_bounds im p \<and> load im p = Bands [r, g, b, a] \<longrightarrow>
         load (split pil im ! 3) p = Scalar (int (unat a)))"
    unfolding pillow_contract_def by (elim conjE)
  from this[THEN spec[where x = im], THEN mp, OF assms(2)] show ?thesis .
qed

lemma contract_paste:
  assumes "pillow_contract pil"
    and "mode bg = ''RGB'' \<and> mode im = ''RGBA'' \<and> mode alpha = ''L'' \<and>
      size_image im = size_image bg \<and> size_image alpha = size_image bg"
  shows "\<exists>out. paste pil bg im alpha = Inr out \<and> mode out = ''RGB'' \<and>
      size_image out = size_image bg \<and>
      (\<forall>p c0 c1 c2 r g b a m.
         in_bounds bg p \<and> load bg p = Bands [c0, c1, c2] \<and>
         load im p = Bands [r, g, b, a] \<and> load alpha p = Scalar (int m) \<and> m \<le> 255 \<longrightarrow>
         load out p = Bands [blend m c0 r, blend m c1 g, blend m c2 b])"
proof -
  from assms(1) have "\<forall>bg im mask.
      mode bg = ''RGB'' \<and> mode im = ''RGBA'' \<and> mode mask = ''L'' \<and>
      size_image im = size_image bg \<and> size_image mask = size_image bg \<longrightarrow>
      (\<exists>out. paste pil bg im mask = Inr out \<and> mode out = ''RGB'' \<and>
         size_image out = size_image bg \<and>
         (\<forall>p c0 c1 c2 r g b a m.
            in_bounds bg p \<and> load bg p = Bands [c0, c1, c2] \<and>
            load im p = Bands [r, g, b, a] \<and> load mask p = Scalar (int m) \<and> m \<le> 255 \<longrightarrow>
            load out p = Bands [blend m c0 r, blend m c1 g, blend m c2 b]))"
    unfolding pillow_contract_def by (elim conjE)
  from this[THEN spec[where x = bg], THEN spec[where x = im], THEN spec[where x = alpha],
      THEN mp, OF assms(2)]
  show ?thesis .
qed

subsection \<open>The three branches\<close>

lemma convert_to_jpeg_rgba:
  assumes con: "pillow_contract pil" and dec: "Image_open pil image_bytes = Inr im"
    and m: "mode im = ''RGBA''"
  shows "\<exists>rgb. paste pil (Image_new pil ''RGB'' (size_image im) [0, 0, 0]) im (split pil im ! 3)
             = Inr rgb \<and>
           convert_to_jpeg pil image_bytes quality = save_jpeg pil rgb quality \<and>
           mode rgb = ''RGB'' \<and> size_image rgb = size_image im \<and>
           (\<forall>p r g b a. in_bounds im p \<and> load im p = Bands [r, g, b, a] \<longrightarrow>
              load rgb p = Bands [blend (unat a) 0 r, blend (unat a) 0 g, blend (unat a) 0 b])"
proof -
  let ?bg = "Image_new pil ''RGB'' (size_image im) [0, 0, 0]"
  let ?mask = "split pil im ! 3"
  have three: "length [0, 0, 0 :: byte] = 3" by simp
  note new = contract_new[OF con three, of "size_image im"]
  note bg_mode = new[THEN conjunct1]
  note bg_size = new[THEN conjunct2, THEN conjunct1]
  note bg_load = new[THEN conjunct2, THEN conjunct2]
  note sp = contract_split[OF con m]
  note len = sp[THEN conjunct1]
  note mask_mode = sp[THEN conjunct2, THEN conjunct1]
  note mask_size = sp[THEN conjunct2, THEN conjunct2, THEN conjunct1]
  note mask_load = sp[THEN conjunct2, THEN conjunct2, THEN conjunct2]
  have pre: "mode ?bg = ''RGB'' \<and> mode im = ''RGBA'' \<and> mode ?mask = ''L'' \<and>
      size_image im = size_image ?bg \<and> size_image ?mask = size_image ?bg"
    using bg_mode bg_size m mask_mode mask_size by simp
  from contract_paste[OF con pre]
  obtain rgb where out: "paste pil ?bg im ?mask = Inr rgb \<and> mode rgb = ''RGB'' \<and>
      size_image rgb = size_image ?bg \<and>
      (\<forall>p c0 c1 c2 r g b a m.
         in_bounds ?bg p \<and> load ?bg p = Bands [c0, c1, c2] \<and>
         load im p = Bands [r, g, b, a] \<and> load ?mask p = Scalar (int m) \<and> m \<le> 255 \<longrightarrow>
         load rgb p = Bands [blend m c0 r, blend m c1 g, blend m c2 b])" ..
  note run = out[THEN conjunct1]
  note mo = out[THEN conjunct2, THEN conjunct1]
  note sz = out[THEN conjunct2, THEN conjunct2, THEN conjunct1]
  note mixed = out[THEN conjunct2, THEN conjunct2, THEN conjunct2]
  have jpeg: "convert_to_jpeg pil image_bytes quality = save_jpeg pil rgb quality"
    by (simp add: convert_to_jpeg_def dec m getitem_def len run)
  have px: "load rgb p = Bands [blend (unat a) 0 r, blend (unat a) 0 g, blend (unat a) 0 b]"
    if inb: "in_bounds im p" and col: "load im p = Bands [r, g, b, a]" for p r g b a
  proof -
    from inb have inb': "in_bounds ?bg p" by (simp add: in_bounds_def bg_size)
    from bg_load[THEN spec[where x = p], THEN mp, OF inb']
    have canvas: "load ?bg p = Bands [0, 0, 0]" .
    from mask_load[THEN spec[where x = p], THEN spec[where x = r], THEN spec[where x = g],
        THEN spec[where x = b], THEN spec[where x = a], THEN mp, OF conjI, OF inb col]
    have alpha: "load ?mask p = Scalar (int (unat a))" .
    have le: "unat a \<le> 255" using unat_byte_less[of a] by simp
    from mixed[THEN spec[where x = p], THEN spec[where x = 0], THEN spec[where x = 0],
        THEN spec[where x = 0], THEN spec[where x = r], THEN spec[where x = g],
        THEN spec[where x = b], THEN spec[where x = a], THEN spec[where x = "unat a"],
        THEN mp] inb' canvas col alpha le
    show ?thesis by simp
  qed
  from sz have "size_image rgb = size_image im" by (simp add: bg_size)
  with run jpeg mo px show ?thesis by blast
qed

lemma convert_to_jpeg_other_mode:
  assumes "Image_open pil image_bytes = Inr im" and "mode im \<noteq> ''RGBA''" and "mode im \<noteq> ''RGB''"
  shows "convert_to_jpeg pil image_bytes quality
         = bind (convert pil im ''RGB'') (\<lambda>rgb. save_jpeg pil rgb quality)"
  using assms by (simp add: convert_to_jpeg_def)

lemma convert_to_jpeg_rgb:
  assumes "Image_open pil image_bytes = Inr im" and "mode im = ''RGB''"
  shows "convert_to_jpeg pil image_bytes quality = save_jpeg pil im quality"
  using assms by (simp add: convert_to_jpeg_def)

lemma convert_to_jpeg_three_alphas:
  "convert_to_jpeg (reference_pillow (fixed_decoder three_alphas_image)) image_bytes 80
     = Inr [80, 0, 0, 0, 200, 100, 50, 2, 1, 128]"
  by (simp add: convert_to_jpeg_def reference_pillow_def fixed_decoder_def three_alphas_image_def
      split_reference_def band_count_def band_image_def getitem_def paste_reference_def
      paste_pixel_def blend_def save_reference_def raster_bytes_def scan_order_def
      row_coords_def upt_0_numeral upt_1_numeral bind_def)

lemma convert_to_jpeg_grey_alpha:
  "convert_to_jpeg (reference_pillow (fixed_decoder grey_alpha_image)) image_bytes 80
     = Inr [80, 255, 255, 255]"
  by (simp add: convert_to_jpeg_def reference_pillow_def fixed_decoder_def grey_alpha_image_def
      convert_reference_def convert_pixel_rgb_def save_reference_def raster_bytes_def
      scan_order_def row_coords_def bind_def)

section \<open>Claims about the extractor\<close>

text \<open>
  Claim C1.  When the scan reaches a pixel \<open>(x, y)\<close> with four channels and a nonzero
  alpha (the rows above it and the pixels to its left have been processed), the
  identifier the code assigns to it, whether it is read from the colour cache or computed,
  is the decimal string of \<open>B * 65536 + G * 256 + R\<close>, a number of 24 bits, and the
  pixel is recorded in the box stored under that identifier.
\<close>

theorem identify_id_is_bgr_packing:
  assumes above: "for_y pixels w [0..<y] initial_state = Inr st0"
    and left: "for_x pixels y [0..<x] st0 = Inr st"
    and px: "pixels (x, y) = Bands [r, g, b, a]" and a: "a \<noteq> 0"
  shows "(\<exists>seen. lookup_identify_id (seen_colors st) (pixels (x, y)) r g b
            = Inr (str (unat b * 65536 + unat g * 256 + unat r), seen)) \<and>
         unat b * 65536 + unat g * 256 + unat r < 2 ^ 24 \<and>
         (\<exists>st' box. process_pixel pixels x y st = Inr st' \<and>
            boxes st' (str (unat b * 65536 + unat g * 256 + unat r)) = Some box \<and>
            box ! 0 \<le> x \<and> x \<le> box ! 2 \<and> box ! 1 \<le> y \<and> y \<le> box ! 3)"
proof -
  let ?i = "str (unat b * 65536 + unat g * 256 + unat r)"
  let ?S = "set (scan_order w [0..<y]) \<union> set (row_coords x y)"
  from above have "scan_list pixels (scan_order w [0..<y]) initial_state = Inr st0"
    by (simp add: for_y_scan_list)
  from scan_list_Inr_inv[OF scan_inv_initial this]
  have inv0: "scan_inv pixels (set (scan_order w [0..<y])) st0" by simp
  from left have "scan_list pixels (row_coords x y) st0 = Inr st"
    by (simp add: for_x_scan_list row_coords_def)
  from scan_list_Inr_inv[OF inv0 this] have inv: "scan_inv pixels ?S st" .
  have un: "unpack4 (pixels (x, y)) = Inr (r, g, b, a)" by (simp add: px)
  from inv have "cache_ok (seen_colors st)" by (simp add: scan_inv_def)
  from lookup_identify_id_cached[OF this un a]
  have first: "\<exists>seen. lookup_identify_id (seen_colors st) (pixels (x, y)) r g b = Inr (?i, seen)"
    by blast
  from process_pixel_opaque[OF inv un a] obtain st' where
    st': "process_pixel pixels x y st = Inr st'"
    and inv': "scan_inv pixels (insert (x, y) ?S) st'" by blast
  let ?P = "points pixels (insert (x, y) ?S) ?i"
  have mem: "(x, y) \<in> ?P"
    using pixel_identifier_opaque[OF un a] by (simp add: points_def)
  from inv' have fin: "finite ?P" by (simp add: scan_inv_def finite_points)
  from inv' mem have bx: "boxes st' ?i = Some (box_of ?P)"
    by (auto simp: scan_inv_def)
  from box_of_contains[OF fin mem] st' bx
  have "\<exists>st' box. process_pixel pixels x y st = Inr st' \<and> boxes st' ?i = Some box \<and>
          box ! 0 \<le> x \<and> x \<le> box ! 2 \<and> box ! 1 \<le> y \<and> y \<le> box ! 3"
    by blast
  moreover have "unat b * 65536 + unat g * 256 + unat r < 2 ^ 24"
    using unat_byte_less[of b] unat_byte_less[of g] unat_byte_less[of r] by simp
  ultimately show ?thesis using first by blast
qed

text \<open>
  The second of two opaque pixels with R=0x12, G=0x34, B=0x56 gets the identifier
  5649426, the decimal value of 0x563412, from the cache.
\<close>

theorem identify_id_is_bgr_packing_witness:
  "for_y (load two_pixel_row) 2 [0..<0] initial_state = Inr initial_state \<and>
   for_x (load two_pixel_row) 0 [0..<1] initial_state
     = Inr \<lparr>boxes = [''5649426'' \<mapsto> [0, 0, 0, 0]],
            seen_colors = [Bands [0x12, 0x34, 0x56, 0xFF] \<mapsto> ''5649426'']\<rparr> \<and>
   (\<exists>seen. lookup_identify_id [Bands [0x12, 0x34, 0x56, 0xFF] \<mapsto> ''5649426'']
              (load two_pixel_row (1, 0)) 0x12 0x34 0x56 = Inr (''5649426'', seen)) \<and>
   (0x56 * 65536 + 0x34 * 256 + 0x12 :: nat) = 5649426 \<and>
   (\<exists>st' box. process_pixel (load two_pixel_row) 1 0
        \<lparr>boxes = [''5649426'' \<mapsto> [0, 0, 0, 0]],
         seen_colors = [Bands [0x12, 0x34, 0x56, 0xFF] \<mapsto> ''5649426'']\<rparr> = Inr st' \<and>
      boxes st' ''5649426'' = Some box \<and> box ! 0 \<le> 1 \<and> 1 \<le> box ! 2 \<and> box ! 1 \<le> 0 \<and> 0 \<le> box ! 3)"
proof -
  let ?st = "\<lparr>boxes = [''5649426'' \<mapsto> [0, 0, 0, 0]],
              seen_colors = [Bands [0x12, 0x34, 0x56, 0xFF :: byte] \<mapsto> ''5649426'']\<rparr>"
  have above: "for_y (load two_pixel_row) 2 [0..<0] initial_state = Inr initial_state"
    by simp
  have left: "for_x (load two_pixel_row) 0 [0..<1] initial_state = Inr ?st"
    by (simp add: scan_eval two_pixel_row_def)
  have px: "load two_pixel_row (1, 0) = Bands [0x12, 0x34, 0x56, 0xFF]"
    by (simp add: two_pixel_row_def)
  have a: "(0xFF :: byte) \<noteq> 0" by simp
  have i: "str (unat (0x56 :: byte) * 65536 + unat (0x34 :: byte) * 256 + unat (0x12 :: byte))
           = ''5649426''"
    by (simp add: str.simps digit_char_def)
  from identify_id_is_bgr_packing[OF above left px a] above left show ?thesis
    unfolding i by simp
qed

text \<open>
  Claim C2.  A pixel with alpha 0 leaves the state of the scan as it is, whatever its
  colour and whatever the state.  An image whose pixels all have alpha 0 gives an empty
  map of boxes.  In every result, each of the four bounds of each box is the coordinate of
  a pixel of that identifier with a nonzero alpha, so that no pixel with alpha 0 has
  created a box or set a bound.
\<close>

theorem transparent_pixels_are_skipped:
  assumes dec: "Image_open pil image_bytes = Inr im" and sz: "size_image im = (w, h)"
  shows "(\<forall>x y r g b st. load im (x, y) = Bands [r, g, b, 0] \<longrightarrow>
            process_pixel (load im) x y st = Inr st) \<and>
         ((\<forall>x<w. \<forall>y<h. \<exists>r g b. load im (x, y) = Bands [r, g, b, 0]) \<longrightarrow>
            compute_bounding_boxes pil image_bytes
              = Inr \<lparr>image_width = w, image_height = h, bboxes = Map.empty\<rparr>) \<and>
         (\<forall>res k box. compute_bounding_boxes pil image_bytes = Inr res \<and>
              bboxes res k = Some box \<longrightarrow>
            (\<exists>p0 \<in> id_pixels im k. \<exists>p1 \<in> id_pixels im k.
             \<exists>p2 \<in> id_pixels im k. \<exists>p3 \<in> id_pixels im k.
               box = [fst p0, snd p1, fst p2, snd p3]))"
proof (intro conjI allI impI)
  fix x y r g b st
  assume "load im (x, y) = Bands [r, g, b, 0]"
  then have "unpack4 (load im (x, y)) = Inr (r, g, b, 0)" by simp
  then show "process_pixel (load im) x y st = Inr st" by (rule process_pixel_transparent)
next
  assume all0: "\<forall>x<w. \<forall>y<h. \<exists>r g b. load im (x, y) = Bands [r, g, b, 0]"
  then have "\<forall>x<w. \<forall>y<h. \<exists>r g b a. load im (x, y) = Bands [r, g, b, a]" by blast
  from compute_bounding_boxes_total[OF dec sz this] obtain bbs where
    res: "compute_bounding_boxes pil image_bytes
            = Inr \<lparr>image_width = w, image_height = h, bboxes = bbs\<rparr>" by blast
  have "id_pixels im k = {}" for k
    using all0 sz by (fastforce simp: id_pixels_def)
  with compute_bounding_boxes_Inr[OF dec sz res] have "bbs k = None" for k by simp
  then have "bbs = Map.empty" by (simp add: fun_eq_iff)
  with res show "compute_bounding_boxes pil image_bytes
      = Inr \<lparr>image_width = w, image_height = h, bboxes = Map.empty\<rparr>" by simp
next
  fix res k box
  assume "compute_bounding_boxes pil image_bytes = Inr res \<and> bboxes res k = Some box"
  then have res: "compute_bounding_boxes pil image_bytes = Inr res"
    and box: "bboxes res k = Some box" by simp_all
  from compute_bounding_boxes_Inr[OF dec sz res] box
  have ne: "id_pixels im k \<noteq> {}" and eq: "box = box_of (id_pixels im k)"
    by (auto split: if_splits)
  from box_of_attained[OF finite_id_pixels ne] eq
  show "\<exists>p0 \<in> id_pixels im k. \<exists>p1 \<in> id_pixels im k.
        \<exists>p2 \<in> id_pixels im k. \<exists>p3 \<in> id_pixels im k.
          box = [fst p0, snd p1, fst p2, snd p3]" by simp
qed

text \<open>
  On the 2 by 2 image with alpha 0 everywhere: the pixel at (1, 1) leaves the initial
  state unchanged and the result has no box.  On the image with one colour at (5, 5) and at
  (10, 2) among transparent pixels, the bounds 5, 2, 10, 5 are coordinates of these two.
\<close>

theorem transparent_pixels_are_skipped_witness:
  "Image_open (reference_pillow (fixed_decoder transparent_image)) [] = Inr transparent_image \<and>
   size_image transparent_image = (2, 2) \<and>
   process_pixel (load transparent_image) 1 1 initial_state = Inr initial_state \<and>
   compute_bounding_boxes (reference_pillow (fixed_decoder transparent_image)) []
     = Inr \<lparr>image_width = 2, image_height = 2, bboxes = Map.empty\<rparr> \<and>
   (\<exists>p0 \<in> id_pixels pick_image_two ''197121''. \<exists>p1 \<in> id_pixels pick_image_two ''197121''.
    \<exists>p2 \<in> id_pixels pick_image_two ''197121''. \<exists>p3 \<in> id_pixels pick_image_two ''197121''.
      [5, 2, 10, 5] = [fst p0, snd p1, fst p2, snd p3])"
proof -
  let ?pil = "reference_pillow (fixed_decoder transparent_image)"
  have dec: "Image_open ?pil [] = Inr transparent_image"
    by (simp add: reference_pillow_def fixed_decoder_def)
  have sz: "size_image transparent_image = (2, 2)"
    by (simp add: transparent_image_def)
  have px: "load transparent_image (1, 1) = Bands [1, 1, 7, 0]"
    by (simp add: transparent_image_def)
  have all0: "\<forall>x<2. \<forall>y<2. \<exists>r g b. load transparent_image (x, y) = Bands [r, g, b, 0]"
    by (simp add: transparent_image_def)
  let ?pil2 = "reference_pillow (fixed_decoder pick_image_two)"
  have dec2: "Image_open ?pil2 [] = Inr pick_image_two"
    by (simp add: reference_pillow_def fixed_decoder_def)
  have sz2: "size_image pick_image_two = (11, 6)"
    by (simp add: pick_image_two_def)
  have res2: "compute_bounding_boxes ?pil2 [] = Inr \<lparr>image_width = 11, image_height = 6,
      bboxes = [''197121'' \<mapsto> [5, 2, 10, 5]]\<rparr> \<and>
      bboxes \<lparr>image_width = 11, image_height = 6,
        bboxes = [''197121'' \<mapsto> [5, 2, 10, 5]]\<rparr> ''197121'' = Some [5, 2, 10, 5]"
    by (simp add: compute_pick_image_two)
  from transparent_pixels_are_skipped[OF dec sz] px all0
  have "process_pixel (load transparent_image) 1 1 initial_state = Inr initial_state"
    and "compute_bounding_boxes ?pil [] = Inr \<lparr>image_width = 2, image_height = 2, bboxes = Map.empty\<rparr>"
    by blast+
  moreover from transparent_pixels_are_skipped[OF dec2 sz2] res2
  have "\<exists>p0 \<in> id_pixels pick_image_two ''197121''. \<exists>p1 \<in> id_pixels pick_image_two ''197121''.
    \<exists>p2 \<in> id_pixels pick_image_two ''197121''. \<exists>p3 \<in> id_pixels pick_image_two ''197121''.
      [5, 2, 10, 5] = [fst p0, snd p1, fst p2, snd p3]"
    by blast
  ultimately show ?thesis using dec sz by blast
qed

text \<open>
  Claim C3.  Whenever the extractor returns, the box of an identifier is the
  component-wise minimum and maximum over exactly the coordinates of its pixels with a
  nonzero alpha, and an identifier without such a pixel has no box; it returns on every
  image whose pixels have four channels.  A first occurrence stores \<open>[x, y, x, y]\<close> and a
  later one moves each bound on its own.  One such pixel at (5, 5) gives
  \<open>[5, 5, 5, 5]\<close>, a second one at (10, 2) gives \<open>[5, 2, 10, 5]\<close>.
\<close>

theorem bounding_box_is_min_max:
  assumes dec: "Image_open pil image_bytes = Inr im" and sz: "size_image im = (w, h)"
  shows "(\<forall>res k. compute_bounding_boxes pil image_bytes = Inr res \<longrightarrow>
            bboxes res k =
              (if id_pixels im k = {} then None
               else Some [Min (fst ` id_pixels im k), Min (snd ` id_pixels im k),
                          Max (fst ` id_pixels im k), Max (snd ` id_pixels im k)]) \<and>
            (id_pixels im k = {(5, 5)} \<longrightarrow> bboxes res k = Some [5, 5, 5, 5]) \<and>
            (id_pixels im k = {(5, 5), (10, 2)} \<longrightarrow> bboxes res k = Some [5, 2, 10, 5])) \<and>
         ((\<forall>x<w. \<forall>y<h. \<exists>r g b a. load im (x, y) = Bands [r, g, b, a]) \<longrightarrow>
            (\<exists>res. compute_bounding_boxes pil image_bytes = Inr res)) \<and>
         (\<forall>bbs i x y. bbs i = None \<longrightarrow>
            update_bounding_box bbs i x y = Inr (bbs(i \<mapsto> [x, y, x, y]))) \<and>
         (\<forall>bbs i x y x0 y0 x1 y1. bbs i = Some [x0, y0, x1, y1] \<longrightarrow>
            update_bounding_box bbs i x y
              = Inr (bbs(i \<mapsto> [min x x0, min y y0, max x x1, max y y1])))"
proof (intro conjI allI impI)
  fix res k
  assume res: "compute_bounding_boxes pil image_bytes = Inr res"
  from compute_bounding_boxes_Inr[OF dec sz res]
  show box: "bboxes res k =
      (if id_pixels im k = {} then None
       else Some [Min (fst ` id_pixels im k), Min (snd ` id_pixels im k),
                  Max (fst ` id_pixels im k), Max (snd ` id_pixels im k)])"
    by (simp add: box_of_def)
  {
    assume "id_pixels im k = {(5, 5)}"
    with box show "bboxes res k = Some [5, 5, 5, 5]" by simp
  }
  {
    assume "id_pixels im k = {(5, 5), (10, 2)}"
    with box show "bboxes res k = Some [5, 2, 10, 5]" by simp
  }
next
  assume "\<forall>x<w. \<forall>y<h. \<exists>r g b a. load im (x, y) = Bands [r, g, b, a]"
  from compute_bounding_boxes_total[OF dec sz this]
  show "\<exists>res. compute_bounding_boxes pil image_bytes = Inr res" by blast
next
  fix bbs :: "string \<rightharpoonup> nat list" and i x y
  assume "bbs i = None"
  then show "update_bounding_box bbs i x y = Inr (bbs(i \<mapsto> [x, y, x, y]))"
    by (simp add: update_bounding_box_def)
next
  fix bbs :: "string \<rightharpoonup> nat list" and i x y x0 y0 x1 y1
  assume "bbs i = Some [x0, y0, x1, y1]"
  then show "update_bounding_box bbs i x y
      = Inr (bbs(i \<mapsto> [min x x0, min y y0, max x x1, max y y1]))"
    by (simp add: update_bounding_box_def expand_bbox_four)
qed

text \<open>
  The image with the colour R=1, G=2, B=3 (identifier 197121) at (5, 5) and at (10, 2):
  its pixels have four channels, the extractor returns, and the box of 197121 is
  \<open>[5, 2, 10, 5]\<close>.
\<close>

theorem bounding_box_is_min_max_witness:
  "Image_open (reference_pillow (fixed_decoder pick_image_two)) [] = Inr pick_image_two \<and>
   size_image pick_image_two = (11, 6) \<and>
   id_pixels pick_image_two ''197121'' = {(5, 5), (10, 2)} \<and>
   (\<exists>res. compute_bounding_boxes (reference_pillow (fixed_decoder pick_image_two)) [] = Inr res \<and>
      bboxes res ''197121'' = Some [5, 2, 10, 5] \<and>
      bboxes res ''197121'' =
        (if id_pixels pick_image_two ''197121'' = {} then None
         else Some [Min (fst ` id_pixels pick_image_two ''197121''),
                    Min (snd ` id_pixels pick_image_two ''197121''),
                    Max (fst ` id_pixels pick_image_two ''197121''),
                    Max (snd ` id_pixels pick_image_two ''197121'')])) \<and>
   update_bounding_box Map.empty ''197121'' 5 5 = Inr [''197121'' \<mapsto> [5, 5, 5, 5]] \<and>
   update_bounding_box [''197121'' \<mapsto> [5, 5, 5, 5]] ''197121'' 10 2
     = Inr [''197121'' \<mapsto> [5, 2, 10, 5]]"
proof -
  let ?pil = "reference_pillow (fixed_decoder pick_image_two)"
  have dec: "Image_open ?pil [] = Inr pick_image_two"
    by (simp add: reference_pillow_def fixed_decoder_def)
  have sz: "size_image pick_image_two = (11, 6)"
    by (simp add: pick_image_two_def)
  have four: "\<forall>x<11. \<forall>y<6. \<exists>r g b a. load pick_image_two (x, y) = Bands [r, g, b, a]"
    by (simp add: pick_image_two_def)
  have i: "str 197121 = ''197121''"
    by (simp add: str.simps digit_char_def)
  have "load pick_image_two p = Bands [r, g, b, a] \<and> a \<noteq> 0 \<longleftrightarrow>
        (p = (5, 5) \<or> p = (10, 2)) \<and> r = 1 \<and> g = 2 \<and> b = 3 \<and> a = 255" for p r g b a
    by (auto simp: pick_image_two_def)
  then have pts: "id_pixels pick_image_two ''197121'' = {(5, 5), (10, 2)}"
    by (auto simp: id_pixels_def i pick_image_two_def)
  note boxes_claim = bounding_box_is_min_max[OF dec sz]
  note c1 = boxes_claim[THEN conjunct1]
  note c2 = boxes_claim[THEN conjunct2, THEN conjunct1]
  note c3 = boxes_claim[THEN conjunct2, THEN conjunct2, THEN conjunct1]
  note c4 = boxes_claim[THEN conjunct2, THEN conjunct2, THEN conjunct2]
  from c2[THEN mp, OF four] obtain res where
    res: "compute_bounding_boxes ?pil [] = Inr res" ..
  note both = c1[THEN spec[where x = res], THEN spec[where x = "''197121''"], THEN mp, OF res]
  note box = both[THEN conjunct2, THEN conjunct2, THEN mp, OF pts]
  have e1: "(Map.empty :: string \<rightharpoonup> nat list) ''197121'' = None" by simp
  note u1 = c3[THEN spec[where x = Map.empty], THEN spec[where x = "''197121''"],
      THEN spec[where x = 5], THEN spec[where x = 5], THEN mp, OF e1]
  have e2: "[''197121'' \<mapsto> [5, 5, 5, 5 :: nat]] ''197121'' = Some [5, 5, 5, 5]" by simp
  note u2' = c4[THEN spec[where x = "[''197121'' \<mapsto> [5, 5, 5, 5]]"],
      THEN spec[where x = "''197121''"], THEN spec[where x = 10], THEN spec[where x = 2],
      THEN spec[where x = 5], THEN spec[where x = 5], THEN spec[where x = 5],
      THEN spec[where x = 5], THEN mp, OF e2]
  have u2: "update_bounding_box [''197121'' \<mapsto> [5, 5, 5, 5]] ''197121'' 10 2
     = Inr [''197121'' \<mapsto> [5, 2, 10, 5]]"
    unfolding u2' by simp
  have ex: "\<exists>res. compute_bounding_boxes ?pil [] = Inr res \<and>
      bboxes res ''197121'' = Some [5, 2, 10, 5] \<and>
      bboxes res ''197121'' =
        (if id_pixels pick_image_two ''197121'' = {} then None
         else Some [Min (fst ` id_pixels pick_image_two ''197121''),
                    Min (snd ` id_pixels pick_image_two ''197121''),
                    Max (fst ` id_pixels pick_image_two ''197121''),
                    Max (snd ` id_pixels pick_image_two ''197121'')])"
    using res box both[THEN conjunct1] by (intro exI[of _ res] conjI)
  show ?thesis
    using dec sz pts ex u1 u2 by (intro conjI)
qed

text \<open>
  Claim C9, as the code has it.  A decoding error is returned as it is.  A decoded image
  whose pixels all have four channels (mode RGBA, or another mode with four bands) always
  gives a result with the size of the image.  A decoded image with a pixel of another
  shape inside its bounds (a number, or a tuple of another length: modes L, P, RGB, LA)
  makes the unpacking of the first such pixel raise \<open>TypeError\<close> or \<open>ValueError\<close>:
  a decoded image is not enough for the scan to succeed.
\<close>

theorem extractor_returns_on_four_band_images:
  "(Image_open pil image_bytes = Inl e \<longrightarrow> compute_bounding_boxes pil image_bytes = Inl e) \<and>
   (Image_open pil image_bytes = Inr im \<and> size_image im = (w, h) \<and>
      (\<forall>x<w. \<forall>y<h. \<exists>r g b a. load im (x, y) = Bands [r, g, b, a]) \<longrightarrow>
      (\<exists>bbs. compute_bounding_boxes pil image_bytes
         = Inr \<lparr>image_width = w, image_height = h, bboxes = bbs\<rparr>)) \<and>
   (Image_open pil image_bytes = Inr im \<and> size_image im = (w, h) \<and>
      (\<exists>x<w. \<exists>y<h. \<forall>r g b a. load im (x, y) \<noteq> Bands [r, g, b, a]) \<longrightarrow>
      compute_bounding_boxes pil image_bytes = Inl TypeError \<or>
      compute_bounding_boxes pil image_bytes = Inl ValueError)"
proof (intro conjI impI)
  assume "Image_open pil image_bytes = Inl e"
  then show "compute_bounding_boxes pil image_bytes = Inl e"
    by (rule compute_bounding_boxes_decode_error)
next
  assume h: "Image_open pil image_bytes = Inr im \<and> size_image im = (w, h) \<and>
      (\<forall>x<w. \<forall>y<h. \<exists>r g b a. load im (x, y) = Bands [r, g, b, a])"
  then have dec: "Image_open pil image_bytes = Inr im" and sz: "size_image im = (w, h)"
    and four: "\<forall>x<w. \<forall>y<h. \<exists>r g b a. load im (x, y) = Bands [r, g, b, a]"
    by simp_all
  from compute_bounding_boxes_total[OF dec sz four]
  show "\<exists>bbs. compute_bounding_boxes pil image_bytes
         = Inr \<lparr>image_width = w, image_height = h, bboxes = bbs\<rparr>" .
next
  assume h: "Image_open pil image_bytes = Inr im \<and> size_image im = (w, h) \<and>
      (\<exists>x<w. \<exists>y<h. \<forall>r g b a. load im (x, y) \<noteq> Bands [r, g, b, a])"
  then have dec: "Image_open pil image_bytes = Inr im" and sz: "size_image im = (w, h)"
    by simp_all
  from h obtain x y where "x < w" "y < h" "\<forall>r g b a. load im (x, y) \<noteq> Bands [r, g, b, a]"
    by blast
  from compute_bounding_boxes_error[OF dec sz this]
  show "compute_bounding_boxes pil image_bytes = Inl TypeError \<or>
      compute_bounding_boxes pil image_bytes = Inl ValueError" .
qed

text \<open>
  The three cases on concrete inputs: bytes that are no image, the RGBA image with two
  opaque pixels, and a greyscale image.
\<close>

theorem extractor_returns_on_four_band_images_witness:
  "Image_open (reference_pillow broken_decoder) [] = Inl UnidentifiedImageError \<and>
   compute_bounding_boxes (reference_pillow broken_decoder) [] = Inl UnidentifiedImageError \<and>
   Image_open (reference_pillow (fixed_decoder pick_image_two)) [] = Inr pick_image_two \<and>
   size_image pick_image_two = (11, 6) \<and>
   (\<exists>bbs. compute_bounding_boxes (reference_pillow (fixed_decoder pick_image_two)) []
      = Inr \<lparr>image_width = 11, image_height = 6, bboxes = bbs\<rparr>) \<and>
   Image_open (reference_pillow (fixed_decoder grey_image)) [] = Inr grey_image \<and>
   size_image grey_image = (1, 1) \<and>
   (compute_bounding_boxes (reference_pillow (fixed_decoder grey_image)) [] = Inl TypeError \<or>
    compute_bounding_boxes (reference_pillow (fixed_decoder grey_image)) [] = Inl ValueError)"
proof -
  have d0: "Image_open (reference_pillow broken_decoder) [] = Inl UnidentifiedImageError"
    by (simp add: reference_pillow_def broken_decoder_def)
  have d1: "Image_open (reference_pillow (fixed_decoder pick_image_two)) [] = Inr pick_image_two \<and>
      size_image pick_image_two = (11, 6) \<and>
      (\<forall>x<11. \<forall>y<6. \<exists>r g b a. load pick_image_two (x, y) = Bands [r, g, b, a])"
    by (simp add: reference_pillow_def fixed_decoder_def pick_image_two_def)
  have d2: "Image_open (reference_pillow (fixed_decoder grey_image)) [] = Inr grey_image \<and>
      size_image grey_image = (1, 1) \<and>
      (\<exists>x<1. \<exists>y<1. \<forall>r g b a. load grey_image (x, y) \<noteq> Bands [r, g, b, a])"
    by (simp add: reference_pillow_def fixed_decoder_def grey_image_def)
  from extractor_returns_on_four_band_images
    [of "reference_pillow broken_decoder" "[]" UnidentifiedImageError] d0
  have "compute_bounding_boxes (reference_pillow broken_decoder) [] = Inl UnidentifiedImageError"
    by blast
  moreover from extractor_returns_on_four_band_images
    [of "reference_pillow (fixed_decoder pick_image_two)" "[]" _ pick_image_two 11 6] d1
  have "\<exists>bbs. compute_bounding_boxes (reference_pillow (fixed_decoder pick_image_two)) []
      = Inr \<lparr>image_width = 11, image_height = 6, bboxes = bbs\<rparr>"
    by blast
  moreover from extractor_returns_on_four_band_images
    [of "reference_pillow (fixed_decoder grey_image)" "[]" _ grey_image 1 1] d2
  have "compute_bounding_boxes (reference_pillow (fixed_decoder grey_image)) [] = Inl TypeError \<or>
    compute_bounding_boxes (reference_pillow (fixed_decoder grey_image)) [] = Inl ValueError"
    by blast
  ultimately show ?thesis using d0 d1 d2 by blast
qed

text \<open>
  The claim as stated fails on a decoded image without alpha: a 1 by 1 RGB image decodes,
  and the extractor raises \<open>ValueError\<close> on its only pixel.
\<close>

theorem extractor_raises_on_decoded_rgb_image:
  "Image_open (reference_pillow (fixed_decoder rgb_image)) [] = Inr rgb_image \<and>
   compute_bounding_boxes (reference_pillow (fixed_decoder rgb_image)) [] = Inl ValueError"
  by (simp add: scan_eval rgb_image_def)

section \<open>Claims about the sensor\<close>

text \<open>
  Claim C4.  On a pass that gets the image and the boxes, the merged record has one
  entry per entry of the name mapping, in its order and under its keys: each holds the
  name, and the box of that identifier when the extractor found one, no box otherwise.  An
  identifier that only the extractor found is in no entry: the keys of the merge are the
  keys of the names, whatever the boxes.
\<close>

theorem merged_record_has_the_keys_of_the_names:
  assumes ne: "objects_attr \<noteq> []" and dict: "distinct (map fst objects_attr)"
    and pick: "self_pick_image_entity_id (self w) \<noteq> None"
    and img: "async_get_pick_image hs (self w) = Some image_bytes"
    and res: "compute_bounding_boxes pil image_bytes = Inr result"
  shows "\<exists>w'. process_plate_data pil hs objects_attr w = Inr w' \<and>
           self_objects (self w') =
             map (\<lambda>item. (fst item, \<lparr>name = snd item, bbox = bboxes result (fst item)\<rparr>))
               objects_attr \<and>
           map fst (self_objects (self w')) = map fst objects_attr \<and>
           fst ` set (merge_loop objects_attr (bboxes result) []) = fst ` set objects_attr"
proof -
  let ?w' = "async_write_ha_state (store_jpeg pil hs image_bytes
       (w\<lparr>self := (self w)\<lparr>
            self_object_count := length (merge_loop objects_attr (bboxes result) []),
            self_objects := merge_loop objects_attr (bboxes result) [],
            self_image_width := image_width result,
            self_image_height := image_height result\<rparr>\<rparr>))"
  have run: "process_plate_data pil hs objects_attr w = Inr ?w'"
    using ne pick img res by (rule process_plate_data_success)
  have objs: "self_objects (self ?w') =
      map (\<lambda>item. (fst item, \<lparr>name = snd item, bbox = bboxes result (fst item)\<rparr>)) objects_attr"
    by (simp add: merge_loop_dict[OF dict] merged_record_def)
  have "map fst (self_objects (self ?w')) = map fst objects_attr"
    unfolding objs by (simp add: comp_def)
  moreover have "fst ` set (merge_loop objects_attr (bboxes result) []) = fst ` set objects_attr"
    by (simp add: keys_merge_loop)
  ultimately show ?thesis using run objs by blast
qed

text \<open>
  The names \<open>{"7": "Gizmo"}\<close> on the image whose boxes are those of 7 and 9: the record
  is the entry of 7 with its box.  With a second name 8 that the image does not show, the
  entry of 8 has no box.
\<close>

theorem merged_record_has_the_keys_of_the_names_witness:
  "gizmo_names \<noteq> [] \<and> distinct (map fst gizmo_names) \<and>
   gizmo_widget_names \<noteq> [] \<and> distinct (map fst gizmo_widget_names) \<and>
   self_pick_image_entity_id (self fresh_world) \<noteq> None \<and>
   async_get_pick_image serving_host (self fresh_world) = Some [1, 2, 3] \<and>
   compute_bounding_boxes (reference_pillow (fixed_decoder gizmo_image)) [1, 2, 3]
     = Inr \<lparr>image_width = 3, image_height = 3,
            bboxes = [''9'' \<mapsto> [0, 0, 1, 1], ''7'' \<mapsto> [1, 1, 2, 2]]\<rparr> \<and>
   (\<exists>w'. process_plate_data (reference_pillow (fixed_decoder gizmo_image)) serving_host
            gizmo_names fresh_world = Inr w' \<and>
      self_objects (self w') = [(''7'', \<lparr>name = ''Gizmo'', bbox = Some [1, 1, 2, 2]\<rparr>)]) \<and>
   (\<exists>w'. process_plate_data (reference_pillow (fixed_decoder gizmo_image)) serving_host
            gizmo_widget_names fresh_world = Inr w' \<and>
      self_objects (self w') = [(''7'', \<lparr>name = ''Gizmo'', bbox = Some [1, 1, 2, 2]\<rparr>),
                                (''8'', \<lparr>name = ''Widget'', bbox = None\<rparr>)])"
proof -
  let ?pil = "reference_pillow (fixed_decoder gizmo_image)"
  let ?res = "\<lparr>image_width = 3, image_height = 3,
            bboxes = [''9'' \<mapsto> [0, 0, 1, 1], ''7'' \<mapsto> [1, 1, 2, 2 :: nat]]\<rparr>"
  have ne: "gizmo_names \<noteq> []" and dict: "distinct (map fst gizmo_names)"
    by (simp_all add: gizmo_names_def)
  have ne2: "gizmo_widget_names \<noteq> []" and dict2: "distinct (map fst gizmo_widget_names)"
    by (simp_all add: gizmo_widget_names_def)
  have pick: "self_pick_image_entity_id (self fresh_world) \<noteq> None"
    by (simp add: fresh_world_def init_sensor_def)
  have img: "async_get_pick_image serving_host (self fresh_world) = Some [1, 2, 3]"
    by (simp add: async_get_pick_image_def serving_host_def fresh_world_def init_sensor_def)
  have res: "compute_bounding_boxes ?pil [1, 2, 3] = Inr ?res"
    by (rule compute_gizmo_image)
  from merged_record_has_the_keys_of_the_names[OF ne dict pick img res]
  have one: "\<exists>w'. process_plate_data ?pil serving_host gizmo_names fresh_world = Inr w' \<and>
      self_objects (self w') = [(''7'', \<lparr>name = ''Gizmo'', bbox = Some [1, 1, 2, 2]\<rparr>)]"
    by (auto simp: gizmo_names_def)
  from merged_record_has_the_keys_of_the_names[OF ne2 dict2 pick img res]
  have two: "\<exists>w'. process_plate_data ?pil serving_host gizmo_widget_names fresh_world = Inr w' \<and>
      self_objects (self w') = [(''7'', \<lparr>name = ''Gizmo'', bbox = Some [1, 1, 2, 2]\<rparr>),
                                (''8'', \<lparr>name = ''Widget'', bbox = None\<rparr>)]"
    by (auto simp: gizmo_widget_names_def)
  from ne dict ne2 dict2 pick img res one two show ?thesis by (intro conjI)
qed

text \<open>
  Claim C5.  For a record whose boxes have their four bounds, the compact line is the
  segments of the objects in the order of the record, joined with \<open>|\<close>: a segment is
  \<open>id:name:min_x,min_y,max_x,max_y\<close>, and \<open>id:name:\<close> for an object without a box.
  Every record the sensor holds is such a record: the initial one is, and a pass keeps
  the property.
\<close>

theorem bbox_data_is_pipe_joined_segments:
  "(four_bounds (self_objects s) \<longrightarrow>
      bbox_data_serialized s = Inr (join ''|'' (map segment (self_objects s)))) \<and>
   four_bounds (self_objects (init_sensor pick)) \<and>
   (four_bounds (self_objects (self w)) \<and> process_plate_data pil hs objects_attr w = Inr w'
      \<longrightarrow> four_bounds (self_objects (self w')))"
proof (intro conjI impI)
  assume "four_bounds (self_objects s)"
  then show "bbox_data_serialized s = Inr (join ''|'' (map segment (self_objects s)))"
    by (rule bbox_data_serialized_segments)
next
  show "four_bounds (self_objects (init_sensor pick))"
    by (simp add: init_sensor_def four_bounds_def)
next
  assume h: "four_bounds (self_objects (self w)) \<and>
    process_plate_data pil hs objects_attr w = Inr w'"
  then have old: "four_bounds (self_objects (self w))"
    and run: "process_plate_data pil hs objects_attr w = Inr w'" by simp_all
  from run show "four_bounds (self_objects (self w'))"
  proof (cases rule: process_plate_data_cases)
    case reset
    with run show ?thesis by (auto simp: process_plate_data_empty four_bounds_def)
  next
    case unchanged
    with old show ?thesis by simp
  next
    case (success image_bytes result)
    have four: "\<forall>k b. bboxes result k = Some b \<longrightarrow> length b = 4"
      using compute_bounding_boxes_four_bounds[OF success(4)] by blast
    have "four_bounds (merge_loop objects_attr (bboxes result) [])"
      by (rule four_bounds_merge_loop[OF four]) (simp add: four_bounds_def)
    with run show ?thesis
      unfolding process_plate_data_success[OF success] by auto
  qed
qed

text \<open>
  The record \<open>{"7": {"name": "Gizmo", "bbox": [1, 1, 2, 2]}}\<close> gives
  \<open>7:Gizmo:1,1,2,2\<close>; without the box it gives \<open>7:Gizmo:\<close>; followed by a second
  object without a box it gives \<open>7:Gizmo:1,1,2,2|8:Widget:\<close>.
\<close>

theorem bbox_data_is_pipe_joined_segments_witness:
  "four_bounds (self_objects gizmo_sensor) \<and>
   bbox_data_serialized gizmo_sensor = Inr ''7:Gizmo:1,1,2,2'' \<and>
   four_bounds (self_objects boxless_sensor) \<and>
   bbox_data_serialized boxless_sensor = Inr ''7:Gizmo:'' \<and>
   four_bounds (self_objects gizmo_widget_sensor) \<and>
   bbox_data_serialized gizmo_widget_sensor = Inr ''7:Gizmo:1,1,2,2|8:Widget:''"
proof -
  have f1: "four_bounds (self_objects gizmo_sensor)"
    by (simp add: four_bounds_def gizmo_sensor_def)
  have f2: "four_bounds (self_objects boxless_sensor)"
    by (simp add: four_bounds_def boxless_sensor_def)
  have f3: "four_bounds (self_objects gizmo_widget_sensor)"
    by (simp add: four_bounds_def gizmo_widget_sensor_def)
  have digits: "str (Suc 0) = ''1''" "str 2 = ''2''"
    by (simp_all add: str.simps digit_char_def)
  from bbox_data_is_pipe_joined_segments[of gizmo_sensor, THEN conjunct1, THEN mp, OF f1]
  have s1: "bbox_data_serialized gizmo_sensor = Inr ''7:Gizmo:1,1,2,2''"
    by (simp add: gizmo_sensor_def segment_def digits)
  from bbox_data_is_pipe_joined_segments[of boxless_sensor, THEN conjunct1, THEN mp, OF f2]
  have s2: "bbox_data_serialized boxless_sensor = Inr ''7:Gizmo:''"
    by (simp add: boxless_sensor_def segment_def)
  from bbox_data_is_pipe_joined_segments[of gizmo_widget_sensor, THEN conjunct1, THEN mp, OF f3]
  have s3: "bbox_data_serialized gizmo_widget_sensor = Inr ''7:Gizmo:1,1,2,2|8:Widget:''"
    by (simp add: gizmo_widget_sensor_def segment_def digits)
  from f1 s1 f2 s2 f3 s3 show ?thesis by (intro conjI)
qed

text \<open>
  Claim C6.  A pass with an empty name mapping, whatever the library, the host, the image
  and the state before, returns normally, sets the count to 0, the objects to the empty
  record and the sizes to 0, and publishes that state.
\<close>

theorem empty_mapping_resets_the_state:
  "\<exists>w'. process_plate_data pil hs [] w = Inr w' \<and>
      self_object_count (self w') = 0 \<and> self_objects (self w') = [] \<and>
      self_image_width (self w') = 0 \<and> self_image_height (self w') = 0 \<and>
      native_value (self w') = 0 \<and> bbox_data_serialized (self w') = Inr '''' \<and>
      written w' = written w @ [self w'] \<and> entry_data w' = entry_data w"
proof -
  let ?w' = "async_write_ha_state
       (w\<lparr>self := (self w)\<lparr>self_object_count := 0, self_objects := [],
              self_image_width := 0, self_image_height := 0\<rparr>\<rparr>)"
  have run: "process_plate_data pil hs [] w = Inr ?w'"
    by (rule process_plate_data_empty)
  have fields: "self_object_count (self ?w') = 0 \<and> self_objects (self ?w') = [] \<and>
      self_image_width (self ?w') = 0 \<and> self_image_height (self ?w') = 0"
    by simp
  then have shown: "native_value (self ?w') = 0 \<and> bbox_data_serialized (self ?w') = Inr []"
    by (simp add: native_value_def bbox_data_serialized_def)
  have published: "written ?w' = written w @ [self ?w'] \<and> entry_data ?w' = entry_data w"
    by (simp add: async_write_ha_state_def)
  from run fields shown published show ?thesis by blast
qed

text \<open>A sensor that holds one object, with a host that serves an image of two.\<close>

theorem empty_mapping_resets_the_state_witness:
  "self_object_count (self populated_world) = 1 \<and>
   (\<exists>w'. process_plate_data (reference_pillow (fixed_decoder gizmo_image)) serving_host []
           populated_world = Inr w' \<and>
      self_object_count (self w') = 0 \<and> self_objects (self w') = [] \<and>
      self_image_width (self w') = 0 \<and> self_image_height (self w') = 0 \<and>
      native_value (self w') = 0 \<and> bbox_data_serialized (self w') = Inr '''' \<and>
      written w' = written populated_world @ [self w'] \<and>
      entry_data w' = entry_data populated_world)"
  using empty_mapping_resets_the_state
    [of "reference_pillow (fixed_decoder gizmo_image)" serving_host populated_world]
  by (simp add: populated_world_def)

text \<open>
  Claim C7.  On a pass with a non-empty name mapping and a resolved image entity, when
  no image bytes are obtained or the extractor raises, the function returns and nothing
  has changed: the attributes of the sensor, the log of published states and the JPEG slot
  are those before the pass.  With an unresolved image entity the assertion fails before
  anything is changed.
\<close>

theorem failed_pass_changes_nothing:
  assumes ne: "objects_attr \<noteq> []"
    and failure: "async_get_pick_image hs (self w) = None \<or>
      (\<exists>image_bytes e. async_get_pick_image hs (self w) = Some image_bytes \<and>
         compute_bounding_boxes pil image_bytes = Inl e)"
  shows "(self_pick_image_entity_id (self w) \<noteq> None \<longrightarrow>
            process_plate_data pil hs objects_attr w = Inr w) \<and>
         (self_pick_image_entity_id (self w) = None \<longrightarrow>
            process_plate_data pil hs objects_attr w = Inl AssertionError)"
proof (intro conjI impI)
  assume pick: "self_pick_image_entity_id (self w) \<noteq> None"
  from failure show "process_plate_data pil hs objects_attr w = Inr w"
  proof
    assume "async_get_pick_image hs (self w) = None"
    with ne pick show ?thesis by (rule process_plate_data_no_image)
  next
    assume "\<exists>image_bytes e. async_get_pick_image hs (self w) = Some image_bytes \<and>
         compute_bounding_boxes pil image_bytes = Inl e"
    then obtain image_bytes e where "async_get_pick_image hs (self w) = Some image_bytes"
      "compute_bounding_boxes pil image_bytes = Inl e" by blast
    with ne pick show ?thesis by (rule process_plate_data_extractor_error)
  qed
next
  assume "self_pick_image_entity_id (self w) = None"
  with ne show "process_plate_data pil hs objects_attr w = Inl AssertionError"
    by (simp add: process_plate_data_def)
qed

text \<open>
  The sensor that holds the object 7 keeps it when the image entity raises, when the bytes
  are no image, and when the image is an RGB image on which the extractor raises.
\<close>

theorem failed_pass_changes_nothing_witness:
  "gizmo_names \<noteq> [] \<and>
   async_get_pick_image failing_host (self populated_world) = None \<and>
   process_plate_data (reference_pillow (fixed_decoder gizmo_image)) failing_host gizmo_names
     populated_world = Inr populated_world \<and>
   async_get_pick_image serving_host (self populated_world) = Some [1, 2, 3] \<and>
   compute_bounding_boxes (reference_pillow broken_decoder) [1, 2, 3] = Inl UnidentifiedImageError \<and>
   process_plate_data (reference_pillow broken_decoder) serving_host gizmo_names
     populated_world = Inr populated_world \<and>
   compute_bounding_boxes (reference_pillow (fixed_decoder rgb_image)) [1, 2, 3] = Inl ValueError \<and>
   process_plate_data (reference_pillow (fixed_decoder rgb_image)) serving_host gizmo_names
     populated_world = Inr populated_world \<and>
   self_objects (self populated_world) = [(''7'', \<lparr>name = ''Gizmo'', bbox = Some [1, 1, 2, 2]\<rparr>)]"
proof -
  have ne: "gizmo_names \<noteq> []" by (simp add: gizmo_names_def)
  have pick: "self_pick_image_entity_id (self populated_world) \<noteq> None"
    by (simp add: populated_world_def)
  have none: "async_get_pick_image failing_host (self populated_world) = None"
    by (simp add: async_get_pick_image_def failing_host_def populated_world_def)
  have some: "async_get_pick_image serving_host (self populated_world) = Some [1, 2, 3]"
    by (simp add: async_get_pick_image_def serving_host_def populated_world_def)
  have e1: "compute_bounding_boxes (reference_pillow broken_decoder) [1, 2, 3]
      = Inl UnidentifiedImageError"
    by (simp add: compute_bounding_boxes_def reference_pillow_def broken_decoder_def)
  have e2: "compute_bounding_boxes (reference_pillow (fixed_decoder rgb_image)) [1, 2, 3]
      = Inl ValueError"
    by (rule compute_rgb_image)
  have r1: "process_plate_data (reference_pillow (fixed_decoder gizmo_image)) failing_host
      gizmo_names populated_world = Inr populated_world"
    using failed_pass_changes_nothing[OF ne disjI1, OF none, THEN conjunct1, THEN mp, OF pick] .
  have f2: "async_get_pick_image serving_host (self populated_world) = None \<or>
      (\<exists>image_bytes e. async_get_pick_image serving_host (self populated_world) = Some image_bytes \<and>
         compute_bounding_boxes (reference_pillow broken_decoder) image_bytes = Inl e)"
    using some e1 by blast
  have r2: "process_plate_data (reference_pillow broken_decoder) serving_host gizmo_names
      populated_world = Inr populated_world"
    using failed_pass_changes_nothing[OF ne f2, THEN conjunct1, THEN mp, OF pick] .
  have f3: "async_get_pick_image serving_host (self populated_world) = None \<or>
      (\<exists>image_bytes e. async_get_pick_image serving_host (self populated_world) = Some image_bytes \<and>
         compute_bounding_boxes (reference_pillow (fixed_decoder rgb_image)) image_bytes = Inl e)"
    using some e2 by blast
  have r3: "process_plate_data (reference_pillow (fixed_decoder rgb_image)) serving_host gizmo_names
      populated_world = Inr populated_world"
    using failed_pass_changes_nothing[OF ne f3, THEN conjunct1, THEN mp, OF pick] .
  have objs: "self_objects (self populated_world)
      = [(''7'', \<lparr>name = ''Gizmo'', bbox = Some [1, 1, 2, 2]\<rparr>)]"
    by (simp add: populated_world_def)
  from ne none r1 some e1 r2 e2 r3 objs show ?thesis by (intro conjI)
qed

text \<open>
  Claim C10.  After a pass that updates the state (the reset on an empty name mapping,
  or a pass that gets the image and the boxes), the count is the number of entries of the
  objects record, entries without a box included, it is the value of the sensor, and that
  state is the one published.  After a pass that gets the image and the boxes the count is
  the number of names.  A pass that updates nothing keeps the equality, which holds
  initially.
\<close>

theorem object_count_is_number_of_objects:
  assumes run: "process_plate_data pil hs objects_attr w = Inr w'"
  shows "(objects_attr = [] \<or>
            (\<exists>image_bytes result. async_get_pick_image hs (self w) = Some image_bytes \<and>
               compute_bounding_boxes pil image_bytes = Inr result) \<longrightarrow>
            self_object_count (self w') = length (self_objects (self w')) \<and>
            native_value (self w') = length (self_objects (self w')) \<and>
            written w' = written w @ [self w']) \<and>
         (objects_attr \<noteq> [] \<and> distinct (map fst objects_attr) \<and>
            (\<exists>image_bytes result. async_get_pick_image hs (self w) = Some image_bytes \<and>
               compute_bounding_boxes pil image_bytes = Inr result) \<longrightarrow>
            native_value (self w') = length objects_attr) \<and>
         (self_object_count (self w) = length (self_objects (self w)) \<longrightarrow>
            self_object_count (self w') = length (self_objects (self w'))) \<and>
         self_object_count (init_sensor pick) = length (self_objects (init_sensor pick))"
proof -
  have pick: "self_pick_image_entity_id (self w) \<noteq> None" if "objects_attr \<noteq> []"
    using run that by (auto simp: process_plate_data_def split: if_splits)
  have updated: "self_object_count (self w') = length (self_objects (self w')) \<and>
      native_value (self w') = length (self_objects (self w')) \<and>
      written w' = written w @ [self w']"
    if "objects_attr = [] \<or>
        (\<exists>image_bytes result. async_get_pick_image hs (self w) = Some image_bytes \<and>
           compute_bounding_boxes pil image_bytes = Inr result)"
  proof (cases "objects_attr = []")
    case True
    with run show ?thesis
      by (auto simp: process_plate_data_empty native_value_def)
  next
    case False
    with that obtain image_bytes result where
      img: "async_get_pick_image hs (self w) = Some image_bytes"
      and res: "compute_bounding_boxes pil image_bytes = Inr result" by blast
    from run show ?thesis
      unfolding process_plate_data_success[OF False pick[OF False] img res]
      by (auto simp: native_value_def)
  qed
  have names: "native_value (self w') = length objects_attr"
    if "objects_attr \<noteq> [] \<and> distinct (map fst objects_attr) \<and>
        (\<exists>image_bytes result. async_get_pick_image hs (self w) = Some image_bytes \<and>
           compute_bounding_boxes pil image_bytes = Inr result)"
  proof -
    from that obtain image_bytes result where ne: "objects_attr \<noteq> []"
      and dict: "distinct (map fst objects_attr)"
      and img: "async_get_pick_image hs (self w) = Some image_bytes"
      and res: "compute_bounding_boxes pil image_bytes = Inr result" by blast
    from run show ?thesis
      unfolding process_plate_data_success[OF ne pick[OF ne] img res]
      by (auto simp: native_value_def merge_loop_dict[OF dict] merged_record_def)
  qed
  have kept: "self_object_count (self w') = length (self_objects (self w'))"
    if old: "self_object_count (self w) = length (self_objects (self w))"
    using run
  proof (cases rule: process_plate_data_cases)
    case reset
    with updated show ?thesis by blast
  next
    case unchanged
    with old show ?thesis by simp
  next
    case (success image_bytes result)
    with updated show ?thesis by blast
  qed
  have "self_object_count (init_sensor pick) = length (self_objects (init_sensor pick))"
    by (simp add: init_sensor_def)
  with updated names kept show ?thesis by blast
qed

text \<open>
  A first pass with the names 7 and 8 on the image that shows 7 and 9 gives the count 2;
  the reset that follows gives the count 0.
\<close>

theorem object_count_is_number_of_objects_witness:
  "(\<exists>w'. process_plate_data (reference_pillow (fixed_decoder gizmo_image)) serving_host
           gizmo_widget_names fresh_world = Inr w' \<and>
      gizmo_widget_names \<noteq> [] \<and> distinct (map fst gizmo_widget_names) \<and>
      async_get_pick_image serving_host (self fresh_world) = Some [1, 2, 3] \<and>
      (\<exists>result. compute_bounding_boxes (reference_pillow (fixed_decoder gizmo_image)) [1, 2, 3]
         = Inr result) \<and>
      self_object_count (self w') = length (self_objects (self w')) \<and>
      native_value (self w') = 2 \<and>
      written w' = written fresh_world @ [self w'] \<and>
      (\<exists>w''. process_plate_data (reference_pillow (fixed_decoder gizmo_image)) serving_host [] w'
              = Inr w'' \<and>
         self_object_count (self w'') = length (self_objects (self w'')) \<and>
         native_value (self w'') = 0))"
proof -
  let ?pil = "reference_pillow (fixed_decoder gizmo_image)"
  have ne: "gizmo_widget_names \<noteq> []" and dict: "distinct (map fst gizmo_widget_names)"
    and len: "length gizmo_widget_names = 2"
    by (simp_all add: gizmo_widget_names_def)
  have pick: "self_pick_image_entity_id (self fresh_world) \<noteq> None"
    by (simp add: fresh_world_def init_sensor_def)
  have img: "async_get_pick_image serving_host (self fresh_world) = Some [1, 2, 3]"
    by (simp add: async_get_pick_image_def serving_host_def fresh_world_def init_sensor_def)
  have res: "\<exists>result. compute_bounding_boxes ?pil [1, 2, 3] = Inr result"
    by (simp add: compute_gizmo_image)
  then obtain result where res': "compute_bounding_boxes ?pil [1, 2, 3] = Inr result" ..
  from process_plate_data_success[OF ne pick img res'] obtain w' where
    run: "process_plate_data ?pil serving_host gizmo_widget_names fresh_world = Inr w'"
    by blast
  have ok: "\<exists>image_bytes result. async_get_pick_image serving_host (self fresh_world)
      = Some image_bytes \<and> compute_bounding_boxes ?pil image_bytes = Inr result"
    using img res' by blast
  note first = object_count_is_number_of_objects[OF run]
  from first[THEN conjunct1] ok
  have a: "self_object_count (self w') = length (self_objects (self w'))"
    and b: "written w' = written fresh_world @ [self w']" by blast+
  from first[THEN conjunct2, THEN conjunct1] ne dict ok len
  have c: "native_value (self w') = 2" by simp
  obtain w'' where run2: "process_plate_data ?pil serving_host [] w' = Inr w''"
    by (simp add: process_plate_data_empty)
  note second = object_count_is_number_of_objects[OF run2]
  from second[THEN conjunct1]
  have d: "self_object_count (self w'') = length (self_objects (self w''))"
    and d': "native_value (self w'') = length (self_objects (self w''))" by blast+
  from run2 have "self_objects (self w'') = []"
    by (auto simp: process_plate_data_empty)
  with d' have e: "native_value (self w'') = 0" by simp
  from run2 d e have "\<exists>w''. process_plate_data ?pil serving_host [] w' = Inr w'' \<and>
         self_object_count (self w'') = length (self_objects (self w'')) \<and>
         native_value (self w'') = 0" by blast
  with run ne dict img res a b c show ?thesis by blast
qed

section \<open>Claims about the normalizer\<close>

text \<open>
  Claim C8, as the code has it.  The compositing is chosen by the test
  \<open>image.mode == "RGBA"\<close>, not by the presence of an alpha channel.  For a library that
  behaves as Pillow documents \<open>new\<close>, \<open>split\<close> and \<open>paste\<close>, an image of mode RGBA
  is pasted on a black RGB canvas of its size with its own alpha band as the mask, and the
  raster that is encoded is the alpha blend of the image with black: inside the image every
  channel is the integer nearest to \<open>channel * alpha / 255\<close>, so that a fractional alpha
  moves the colour toward black, alpha 0 gives black and alpha 255 gives the colour of the
  image.  An image of any other mode but RGB, with or without an alpha channel, is encoded
  after \<open>convert("RGB")\<close>; an RGB image is encoded as it is.  The encoder gets the given
  quality, and the default is 80.  A decoding error is returned as it is.
\<close>

theorem normalizer_composites_mode_rgba:
  assumes con: "pillow_contract pil"
  shows "(Image_open pil image_bytes = Inr im \<and> mode im = ''RGBA'' \<longrightarrow>
            (\<exists>rgb. paste pil (Image_new pil ''RGB'' (size_image im) [0, 0, 0]) im
                      (split pil im ! 3) = Inr rgb \<and>
               convert_to_jpeg pil image_bytes quality = save_jpeg pil rgb quality \<and>
               mode rgb = ''RGB'' \<and> size_image rgb = size_image im \<and>
               (\<forall>x y r g b a.
                  x < fst (size_image im) \<and> y < snd (size_image im) \<and>
                  load im (x, y) = Bands [r, g, b, a] \<longrightarrow>
                  (\<exists>r' g' b'. load rgb (x, y) = Bands [r', g', b'] \<and>
                     unat r' = (unat r * unat a + 127) div 255 \<and>
                     unat g' = (unat g * unat a + 127) div 255 \<and>
                     unat b' = (unat b * unat a + 127) div 255 \<and>
                     unat r' \<le> unat r \<and> unat g' \<le> unat g \<and> unat b' \<le> unat b \<and>
                     (a = 0 \<longrightarrow> load rgb (x, y) = Bands [0, 0, 0]) \<and>
                     (a = 255 \<longrightarrow> load rgb (x, y) = Bands [r, g, b]))))) \<and>
         (Image_open pil image_bytes = Inr im \<and> mode im \<noteq> ''RGBA'' \<and> mode im \<noteq> ''RGB'' \<longrightarrow>
            convert_to_jpeg pil image_bytes quality
              = bind (convert pil im ''RGB'') (\<lambda>rgb. save_jpeg pil rgb quality)) \<and>
         (Image_open pil image_bytes = Inr im \<and> mode im = ''RGB'' \<longrightarrow>
            convert_to_jpeg pil image_bytes quality = save_jpeg pil im quality) \<and>
         (Image_open pil image_bytes = Inl e \<longrightarrow>
            convert_to_jpeg pil image_bytes quality = Inl e) \<and>
         default_quality = 80"
proof (intro conjI impI)
  assume "Image_open pil image_bytes = Inr im \<and> mode im = ''RGBA''"
  then have dec: "Image_open pil image_bytes = Inr im" and m: "mode im = ''RGBA''"
    by simp_all
  from convert_to_jpeg_rgba[OF con dec m, of quality] obtain rgb where
    out: "paste pil (Image_new pil ''RGB'' (size_image im) [0, 0, 0]) im (split pil im ! 3)
            = Inr rgb \<and>
          convert_to_jpeg pil image_bytes quality = save_jpeg pil rgb quality \<and>
          mode rgb = ''RGB'' \<and> size_image rgb = size_image im \<and>
          (\<forall>p r g b a. in_bounds im p \<and> load im p = Bands [r, g, b, a] \<longrightarrow>
             load rgb p = Bands [blend (unat a) 0 r, blend (unat a) 0 g, blend (unat a) 0 b])"
    ..
  note blended = out[THEN conjunct2, THEN conjunct2, THEN conjunct2, THEN conjunct2]
  have px: "\<exists>r' g' b'. load rgb (x, y) = Bands [r', g', b'] \<and>
      unat r' = (unat r * unat a + 127) div 255 \<and>
      unat g' = (unat g * unat a + 127) div 255 \<and>
      unat b' = (unat b * unat a + 127) div 255 \<and>
      unat r' \<le> unat r \<and> unat g' \<le> unat g \<and> unat b' \<le> unat b \<and>
      (a = 0 \<longrightarrow> load rgb (x, y) = Bands [0, 0, 0]) \<and>
      (a = 255 \<longrightarrow> load rgb (x, y) = Bands [r, g, b])"
    if h: "x < fst (size_image im) \<and> y < snd (size_image im) \<and>
      load im (x, y) = Bands [r, g, b, a]" for x y r g b a
  proof -
    from h have inb: "in_bounds im (x, y)" and col: "load im (x, y) = Bands [r, g, b, a]"
      by (simp_all add: in_bounds_def)
    from blended[THEN spec[where x = "(x, y)"], THEN spec[where x = r], THEN spec[where x = g],
        THEN spec[where x = b], THEN spec[where x = a], THEN mp, OF conjI, OF inb col]
    have eq: "load rgb (x, y)
        = Bands [blend (unat a) 0 r, blend (unat a) 0 g, blend (unat a) 0 b]" .
    have black: "load rgb (x, y) = Bands [0, 0, 0]" if "a = 0"
      using that by (simp add: eq blend_black_transparent)
    have same: "load rgb (x, y) = Bands [r, g, b]" if "a = 255"
      using that by (simp add: eq blend_opaque)
    from eq black same show ?thesis
      by (intro exI[of _ "blend (unat a) 0 r"] exI[of _ "blend (unat a) 0 g"]
          exI[of _ "blend (unat a) 0 b"])
        (simp add: unat_blend_black blend_black_bound)
  qed
  from out px
  show "\<exists>rgb. paste pil (Image_new pil ''RGB'' (size_image im) [0, 0, 0]) im
                 (split pil im ! 3) = Inr rgb \<and>
          convert_to_jpeg pil image_bytes quality = save_jpeg pil rgb quality \<and>
          mode rgb = ''RGB'' \<and> size_image rgb = size_image im \<and>
          (\<forall>x y r g b a.
             x < fst (size_image im) \<and> y < snd (size_image im) \<and>
             load im (x, y) = Bands [r, g, b, a] \<longrightarrow>
             (\<exists>r' g' b'. load rgb (x, y) = Bands [r', g', b'] \<and>
                unat r' = (unat r * unat a + 127) div 255 \<and>
                unat g' = (unat g * unat a + 127) div 255 \<and>
                unat b' = (unat b * unat a + 127) div 255 \<and>
                unat r' \<le> unat r \<and> unat g' \<le> unat g \<and> unat b' \<le> unat b \<and>
                (a = 0 \<longrightarrow> load rgb (x, y) = Bands [0, 0, 0]) \<and>
                (a = 255 \<longrightarrow> load rgb (x, y) = Bands [r, g, b])))"
    by (intro exI[of _ rgb] conjI allI impI) (simp_all only: simp_thms)
next
  assume "Image_open pil image_bytes = Inr im \<and> mode im \<noteq> ''RGBA'' \<and> mode im \<noteq> ''RGB''"
  then show "convert_to_jpeg pil image_bytes quality
      = bind (convert pil im ''RGB'') (\<lambda>rgb. save_jpeg pil rgb quality)"
    by (simp add: convert_to_jpeg_other_mode)
next
  assume "Image_open pil image_bytes = Inr im \<and> mode im = ''RGB''"
  then show "convert_to_jpeg pil image_bytes quality = save_jpeg pil im quality"
    by (simp add: convert_to_jpeg_rgb)
next
  assume "Image_open pil image_bytes = Inl e"
  then show "convert_to_jpeg pil image_bytes quality = Inl e"
    by (simp add: convert_to_jpeg_def)
next
  show "default_quality = 80" by (simp add: default_quality_def)
qed

text \<open>
  With the test double: in the RGBA image with the alphas 0, 255 and 128 the first pixel
  becomes black, the second keeps its colour and the third, R=3, G=1, B=255 at alpha 128,
  becomes R=2, G=1, B=128; the greyscale image is converted.
\<close>

theorem normalizer_composites_mode_rgba_witness:
  "pillow_contract (reference_pillow (fixed_decoder three_alphas_image)) \<and>
   Image_open (reference_pillow (fixed_decoder three_alphas_image)) [] = Inr three_alphas_image \<and>
   mode three_alphas_image = ''RGBA'' \<and> size_image three_alphas_image = (3, 1) \<and>
   (\<exists>rgb. convert_to_jpeg (reference_pillow (fixed_decoder three_alphas_image)) [] 80
             = save_jpeg (reference_pillow (fixed_decoder three_alphas_image)) rgb 80 \<and>
      load three_alphas_image (0, 0) = Bands [200, 100, 50, 0] \<and>
      load rgb (0, 0) = Bands [0, 0, 0] \<and>
      load three_alphas_image (1, 0) = Bands [200, 100, 50, 255] \<and>
      load rgb (1, 0) = Bands [200, 100, 50] \<and>
      load three_alphas_image (2, 0) = Bands [3, 1, 255, 128] \<and>
      load rgb (2, 0) = Bands [2, 1, 128]) \<and>
   convert_to_jpeg (reference_pillow (fixed_decoder three_alphas_image)) [] 80
     = Inr [80, 0, 0, 0, 200, 100, 50, 2, 1, 128] \<and>
   pillow_contract (reference_pillow (fixed_decoder grey_image)) \<and>
   Image_open (reference_pillow (fixed_decoder grey_image)) [] = Inr grey_image \<and>
   mode grey_image \<noteq> ''RGBA'' \<and> mode grey_image \<noteq> ''RGB'' \<and>
   convert_to_jpeg (reference_pillow (fixed_decoder grey_image)) [] 80
     = bind (convert (reference_pillow (fixed_decoder grey_image)) grey_image ''RGB'')
         (\<lambda>rgb. save_jpeg (reference_pillow (fixed_decoder grey_image)) rgb 80)"
proof -
  let ?pil = "reference_pillow (fixed_decoder three_alphas_image)"
  let ?pil2 = "reference_pillow (fixed_decoder grey_image)"
  have con: "pillow_contract ?pil" and con2: "pillow_contract ?pil2"
    by (rule pillow_contract_reference)+
  have dec: "Image_open ?pil [] = Inr three_alphas_image \<and> mode three_alphas_image = ''RGBA''"
    by (simp add: fixed_decoder_def three_alphas_image_def)
  have sz: "size_image three_alphas_image = (3, 1)"
    by (simp add: three_alphas_image_def)
  have dec2: "Image_open ?pil2 [] = Inr grey_image \<and> mode grey_image \<noteq> ''RGBA'' \<and>
      mode grey_image \<noteq> ''RGB''"
    by (simp add: fixed_decoder_def grey_image_def)
  have p0: "load three_alphas_image (0, 0) = Bands [200, 100, 50, 0]"
    and p1: "load three_alphas_image (1, 0) = Bands [200, 100, 50, 255]"
    and p2: "load three_alphas_image (2, 0) = Bands [3, 1, 255, 128]"
    by (simp_all add: three_alphas_image_def)
  note c1 = normalizer_composites_mode_rgba[OF con, of "[]" three_alphas_image 80,
      THEN conjunct1, THEN mp, OF dec]
  then obtain rgb where rgb:
    "paste ?pil (Image_new ?pil ''RGB'' (size_image three_alphas_image) [0, 0, 0])
       three_alphas_image (split ?pil three_alphas_image ! 3) = Inr rgb \<and>
     convert_to_jpeg ?pil [] 80 = save_jpeg ?pil rgb 80 \<and>
     mode rgb = ''RGB'' \<and> size_image rgb = size_image three_alphas_image \<and>
     (\<forall>x y r g b a.
        x < fst (size_image three_alphas_image) \<and> y < snd (size_image three_alphas_image) \<and>
        load three_alphas_image (x, y) = Bands [r, g, b, a] \<longrightarrow>
        (\<exists>r' g' b'. load rgb (x, y) = Bands [r', g', b'] \<and>
           unat r' = (unat r * unat a + 127) div 255 \<and>
           unat g' = (unat g * unat a + 127) div 255 \<and>
           unat b' = (unat b * unat a + 127) div 255 \<and>
           unat r' \<le> unat r \<and> unat g' \<le> unat g \<and> unat b' \<le> unat b \<and>
           (a = 0 \<longrightarrow> load rgb (x, y) = Bands [0, 0, 0]) \<and>
           (a = 255 \<longrightarrow> load rgb (x, y) = Bands [r, g, b])))"
    ..
  note jpeg = rgb[THEN conjunct2, THEN conjunct1]
  note pixels = rgb[THEN conjunct2, THEN conjunct2, THEN conjunct2, THEN conjunct2]
  have in0: "0 < fst (size_image three_alphas_image) \<and> 0 < snd (size_image three_alphas_image) \<and>
      load three_alphas_image (0, 0) = Bands [200, 100, 50, 0]"
    and in1: "1 < fst (size_image three_alphas_image) \<and> 0 < snd (size_image three_alphas_image) \<and>
      load three_alphas_image (1, 0) = Bands [200, 100, 50, 255]"
    and in2: "2 < fst (size_image three_alphas_image) \<and> 0 < snd (size_image three_alphas_image) \<and>
      load three_alphas_image (2, 0) = Bands [3, 1, 255, 128]"
    by (simp_all add: three_alphas_image_def)
  from pixels[THEN spec[where x = 0], THEN spec[where x = 0], THEN spec[where x = 200],
      THEN spec[where x = 100], THEN spec[where x = 50], THEN spec[where x = 0],
      THEN mp, OF in0]
  have black: "load rgb (0, 0) = Bands [0, 0, 0]" by blast
  from pixels[THEN spec[where x = 1], THEN spec[where x = 0], THEN spec[where x = 200],
      THEN spec[where x = 100], THEN spec[where x = 50], THEN spec[where x = 255],
      THEN mp, OF in1]
  have same: "load rgb (1, 0) = Bands [200, 100, 50]" by blast
  from pixels[THEN spec[where x = 2], THEN spec[where x = 0], THEN spec[where x = 3],
      THEN spec[where x = 1], THEN spec[where x = 255], THEN spec[where x = 128],
      THEN mp, OF in2]
  obtain r' g' b' :: byte where "load rgb (2, 0) = Bands [r', g', b']"
    and "unat r' = (unat (3 :: byte) * unat (128 :: byte) + 127) div 255"
    and "unat g' = (unat (1 :: byte) * unat (128 :: byte) + 127) div 255"
    and "unat b' = (unat (255 :: byte) * unat (128 :: byte) + 127) div 255"
    by blast
  then have half: "load rgb (2, 0) = Bands [2, 1, 128]"
    by (simp add: word_unat_eq_iff)
  have ex: "\<exists>rgb. convert_to_jpeg ?pil [] 80 = save_jpeg ?pil rgb 80 \<and>
      load three_alphas_image (0, 0) = Bands [200, 100, 50, 0] \<and>
      load rgb (0, 0) = Bands [0, 0, 0] \<and>
      load three_alphas_image (1, 0) = Bands [200, 100, 50, 255] \<and>
      load rgb (1, 0) = Bands [200, 100, 50] \<and>
      load three_alphas_image (2, 0) = Bands [3, 1, 255, 128] \<and>
      load rgb (2, 0) = Bands [2, 1, 128]"
    using jpeg p0 black p1 same p2 half by (intro exI[of _ rgb] conjI)
  have bytes: "convert_to_jpeg ?pil [] 80 = Inr [80, 0, 0, 0, 200, 100, 50, 2, 1, 128]"
    by (rule convert_to_jpeg_three_alphas)
  note c2 = normalizer_composites_mode_rgba[OF con2, of "[]" grey_image 80,
      THEN conjunct2, THEN conjunct1, THEN mp, OF dec2]
  from con dec[THEN conjunct1] dec[THEN conjunct2] sz ex bytes con2 dec2[THEN conjunct1]
    dec2[THEN conjunct2, THEN conjunct1] dec2[THEN conjunct2, THEN conjunct2] c2
  show ?thesis by (intro conjI)
qed

text \<open>
  The claim as stated fails on an image that has an alpha channel in another mode than
  RGBA.  A greyscale image with alpha (mode LA, as Pillow decodes a grey PNG with alpha)
  whose only pixel is white and fully transparent is not composited: it is converted, and
  the pixel that is encoded is white, not black.
\<close>

theorem normalizer_does_not_composite_mode_la:
  "pillow_contract (reference_pillow (fixed_decoder grey_alpha_image)) \<and>
   Image_open (reference_pillow (fixed_decoder grey_alpha_image)) [] = Inr grey_alpha_image \<and>
   mode grey_alpha_image = ''LA'' \<and>
   load grey_alpha_image (0, 0) = Bands [255, 0] \<and>
   convert_to_jpeg (reference_pillow (fixed_decoder grey_alpha_image)) [] 80
     = bind (convert (reference_pillow (fixed_decoder grey_alpha_image)) grey_alpha_image ''RGB'')
         (\<lambda>rgb. save_jpeg (reference_pillow (fixed_decoder grey_alpha_image)) rgb 80) \<and>
   convert (reference_pillow (fixed_decoder grey_alpha_image)) grey_alpha_image ''RGB''
     = Inr \<lparr>mode = ''RGB'', size_image = (1, 1),
            load = (\<lambda>p. convert_pixel_rgb ''LA'' (load grey_alpha_image p))\<rparr> \<and>
   convert_pixel_rgb ''LA'' (load grey_alpha_image (0, 0)) = Bands [255, 255, 255] \<and>
   convert_to_jpeg (reference_pillow (fixed_decoder grey_alpha_image)) [] 80
     = Inr [80, 255, 255, 255]"
proof -
  let ?pil = "reference_pillow (fixed_decoder grey_alpha_image)"
  have "pillow_contract ?pil" by (rule pillow_contract_reference)
  moreover have dec: "Image_open ?pil [] = Inr grey_alpha_image"
    by (simp add: fixed_decoder_def)
  moreover have m: "mode grey_alpha_image = ''LA''"
    and "load grey_alpha_image (0, 0) = Bands [255, 0]"
    by (simp_all add: grey_alpha_image_def)
  moreover have "convert_to_jpeg ?pil [] 80
      = bind (convert ?pil grey_alpha_image ''RGB'') (\<lambda>rgb. save_jpeg ?pil rgb 80)"
    by (rule convert_to_jpeg_other_mode[OF dec]) (simp_all add: m)
  moreover have "convert ?pil grey_alpha_image ''RGB''
     = Inr \<lparr>mode = ''RGB'', size_image = (1, 1),
            load = (\<lambda>p. convert_pixel_rgb ''LA'' (load grey_alpha_image p))\<rparr>"
    by (simp add: reference_pillow_def convert_reference_def grey_alpha_image_def)
  moreover have "convert_pixel_rgb ''LA'' (load grey_alpha_image (0, 0)) = Bands [255, 255, 255]"
    by (simp add: convert_pixel_rgb_def grey_alpha_image_def)
  moreover have "convert_to_jpeg ?pil [] 80 = Inr [80, 255, 255, 255]"
    by (rule convert_to_jpeg_grey_alpha)
  ultimately show ?thesis by (intro conjI)
qed

end
